theory Spec2Isabelle
  imports Main "HOL-Library.Sublist"
begin

section \<open>JavaScript values\<close>

text \<open>
  The values of \<^verbatim>\<open>server.js\<close> are what \<^verbatim>\<open>JSON.parse\<close> builds (null, booleans,
  numbers, strings, arrays, objects) and \<^verbatim>\<open>undefined\<close>, the value of a property that is
  not there. An object is the list of its own properties; reading a key gives the first
  entry for it.

  A number is given by the text that \<^verbatim>\<open>Number.prototype.toString\<close> prints for it, such
  as \<^verbatim>\<open>30101\<close>, \<^verbatim>\<open>0.5\<close>, \<^verbatim>\<open>-7\<close> or \<^verbatim>\<open>1e+21\<close>; zero of either sign prints as \<^verbatim>\<open>0\<close>. The
  program only tests a number for truthiness and interpolates it into a URL, and both are
  functions of this text.

  A string is the list of the bytes of its UTF-8 encoding, so an ASCII string is the list
  of its characters. The program takes the length only of what its regular expression
  matched, which is ASCII text, where bytes and UTF-16 code units are the same.
\<close>

datatype jsval =
    JUndefined
  | JNull
  | JBool bool
  | JNum string
  | JStr string
  | JArr "jsval list"
  | JObj "(string \<times> jsval) list"

text \<open>
  \<^verbatim>\<open>ToBoolean\<close>: what \<^verbatim>\<open>!v\<close>, \<^verbatim>\<open>if(v)\<close> and \<^verbatim>\<open>v || w\<close> test. The falsy numbers are zero and
  \<^verbatim>\<open>NaN\<close>.
\<close>

fun truthy :: "jsval \<Rightarrow> bool" where
  "truthy JUndefined = False"
| "truthy JNull = False"
| "truthy (JBool b) = b"
| "truthy (JNum n) = (n \<noteq> ''0'' \<and> n \<noteq> ''NaN'')"
| "truthy (JStr s) = (s \<noteq> [])"
| "truthy (JArr xs) = True"
| "truthy (JObj kvs) = True"

text \<open>\<^verbatim>\<open>a || b\<close> for operands that cannot throw.\<close>

definition js_or :: "jsval \<Rightarrow> jsval \<Rightarrow> jsval" where
  "js_or a b = (if truthy a then a else b)"

section \<open>The hex heuristic: \<^verbatim>\<open>guessHexesFromText\<close>\<close>

text \<open>The character class \<^verbatim>\<open>[0-9a-fA-F]\<close>.\<close>

definition is_hex :: "char \<Rightarrow> bool" where
  "is_hex c = (c \<in> set ''0123456789abcdefABCDEF'')"

text \<open>
  \<^verbatim>\<open>text.match(/0x[0-9a-fA-F]{64,}/g)\<close>: the regular expression is tried at the current
  position; a match is \<^verbatim>\<open>0x\<close> and the whole run of hex digits behind it (the quantifier is
  greedy and nothing follows it), when that run has 64 digits or more; the search goes on
  behind the match. Where it does not match, the search moves one character on.
\<close>

function match_hexes :: "string \<Rightarrow> string list" where
  "match_hexes [] = []"
| "match_hexes [c] = []"
| "match_hexes (c # d # cs) =
     (if c = CHR ''0'' \<and> d = CHR ''x'' \<and> 64 \<le> length (takeWhile is_hex cs)
      then (c # d # takeWhile is_hex cs) # match_hexes (dropWhile is_hex cs)
      else match_hexes (d # cs))"
  by pat_completeness auto
termination
proof (relation "measure length")
  show "wf (measure length)" by simp
next
  fix c d :: char and cs :: string
  have "length (dropWhile is_hex cs) \<le> length cs" by (rule length_dropWhile_le)
  then show "(dropWhile is_hex cs, c # d # cs) \<in> measure length" by simp
next
  fix c d :: char and cs :: string
  show "(d # cs, c # d # cs) \<in> measure length" by simp
qed

text \<open>\<^verbatim>\<open>String.prototype.match\<close> with the \<^verbatim>\<open>g\<close> flag gives \<^verbatim>\<open>null\<close> when nothing matches.\<close>

definition js_match :: "string \<Rightarrow> string list option" where
  "js_match text = (case match_hexes text of [] \<Rightarrow> None | h # hs \<Rightarrow> Some (h # hs))"

text \<open>
  \<^verbatim>\<open>[...new Set(hexes)]\<close>: a \<^verbatim>\<open>Set\<close> keeps its elements in insertion order, and adding an
  element it already has changes nothing.
\<close>

definition set_add :: "'a list \<Rightarrow> 'a \<Rightarrow> 'a list" where
  "set_add seen x = (if x \<in> set seen then seen else seen @ [x])"

definition new_Set :: "'a list \<Rightarrow> 'a list" where
  "new_Set xs = foldl set_add [] xs"

record hex_guess =
  g_sender32 :: jsval
  g_payload :: jsval

definition guessHexesFromText :: "string \<Rightarrow> hex_guess" where
  "guessHexesFromText text =
     (let hexes = (case js_match text of None \<Rightarrow> [] | Some ms \<Rightarrow> ms);
          uniq = new_Set hexes;
          out = \<lparr>g_sender32 = JNull, g_payload = JNull\<rparr>;
          senders = filter (\<lambda>h. length h = 66) uniq;
          out = (if senders \<noteq> [] then out\<lparr>g_sender32 := JStr (hd senders)\<rparr> else out);
          payloads = filter (\<lambda>h. length h > 66 \<and> length h mod 2 = 0) uniq;
          out = (if payloads \<noteq> [] then out\<lparr>g_payload := JStr (hd payloads)\<rparr> else out)
      in out)"

section \<open>Exceptions, conversions, property reads\<close>

text \<open>
  What a \<^verbatim>\<open>throw\<close> or a rejected promise carries. \<^verbatim>\<open>TypeError\<close> is raised by the
  language itself, \<^verbatim>\<open>Error\<close> by \<^verbatim>\<open>new Error(...)\<close> and by the HTTP client. The
  texts of the language's own messages follow V8.
\<close>

datatype exn = TypeError string | Error string

fun message :: "exn \<Rightarrow> string" where
  "message (TypeError s) = s"
| "message (Error s) = s"

text \<open>
  Decimal digits of an HTTP status, a number of three digits, as the template literal
  \<^verbatim>\<open>`LZ API ${r.status}`\<close> prints it.
\<close>

definition digit_char :: "nat \<Rightarrow> char" where
  "digit_char d = ''0123456789'' ! d"

function show_nat :: "nat \<Rightarrow> string" where
  "show_nat n = (if n < 10 then [digit_char n] else show_nat (n div 10) @ [digit_char (n mod 10)])"
  by pat_completeness auto
termination
  by (relation "measure id") auto

declare show_nat.simps [simp del]

text \<open>
  \<^verbatim>\<open>ToString\<close>, which a template literal applies to each \<^verbatim>\<open>${...}\<close>. A number prints as
  its text. An array is joined
  with commas, \<^verbatim>\<open>null\<close> and \<^verbatim>\<open>undefined\<close> elements printing as nothing. A parsed object
  prints as \<^verbatim>\<open>[object Object]\<close> through the inherited \<^verbatim>\<open>toString\<close>; an own property
  named \<^verbatim>\<open>toString\<close> hides that method and is no function, \<^verbatim>\<open>valueOf\<close> gives back the
  object, and the conversion throws.
\<close>

fun js_ToString :: "jsval \<Rightarrow> exn + string"
  and join_elems :: "jsval list \<Rightarrow> exn + string" where
  "js_ToString JUndefined = Inr ''undefined''"
| "js_ToString JNull = Inr ''null''"
| "js_ToString (JBool b) = Inr (if b then ''true'' else ''false'')"
| "js_ToString (JNum n) = Inr n"
| "js_ToString (JStr s) = Inr s"
| "js_ToString (JArr xs) = join_elems xs"
| "js_ToString (JObj kvs) =
     (if map_of kvs ''toString'' \<noteq> None
      then Inl (TypeError ''Cannot convert object to primitive value'')
      else Inr ''[object Object]'')"
| "join_elems [] = Inr []"
| "join_elems (x # xs) =
     (case (if x = JUndefined \<or> x = JNull then Inr [] else js_ToString x) of
        Inl e \<Rightarrow> Inl e
      | Inr s \<Rightarrow>
          (case join_elems xs of
             Inl e \<Rightarrow> Inl e
           | Inr t \<Rightarrow> Inr (if xs = [] then s else s @ '','' @ t)))"

text \<open>
  \<^verbatim>\<open>String.prototype.toUpperCase\<close>. The letters a to z become A to Z. Outside ASCII the
  language follows the Unicode case mappings, and exactly two characters there have an
  ASCII letter as their upper-case form: the dotless i (U+0131, the bytes C4 B1) becomes
  I and the long s (U+017F, the bytes C5 BF) becomes S. These are modelled. Every other
  character outside ASCII is left as it is: its upper-case form in the language, one
  character or several (such as SS for the sharp s, or FI for the ligature fi), holds a
  character that is none of W, A, I, T, N, G, so a string with such a character
  upper-cases to \<^verbatim>\<open>"WAITING"\<close> neither in the language nor in the model, and that
  comparison is the program's only use of the result.
\<close>

definition upper_char :: "char \<Rightarrow> char" where
  "upper_char c =
     (case map_of (zip ''abcdefghijklmnopqrstuvwxyz'' ''ABCDEFGHIJKLMNOPQRSTUVWXYZ'') c of
        None \<Rightarrow> c
      | Some u \<Rightarrow> u)"

fun toUpperCase :: "string \<Rightarrow> string" where
  "toUpperCase [] = []"
| "toUpperCase [c] = [upper_char c]"
| "toUpperCase (c # d # cs) =
     (if c = CHR 0xC4 \<and> d = CHR 0xB1 then CHR ''I'' # toUpperCase cs
      else if c = CHR 0xC5 \<and> d = CHR 0xBF then CHR ''S'' # toUpperCase cs
      else upper_char c # toUpperCase (d # cs))"

text \<open>
  \<^verbatim>\<open>execStatus.toUpperCase()\<close>: only a string has the method. On a number, a boolean, an
  array or a parsed object the property is \<^verbatim>\<open>undefined\<close> (or, as an own property of an
  object, some value that is no function) and the call throws.
\<close>

definition call_toUpperCase :: "jsval \<Rightarrow> exn + string" where
  "call_toUpperCase v =
     (case v of
        JStr s \<Rightarrow> Inr (toUpperCase s)
      | JUndefined \<Rightarrow> Inl (TypeError ''Cannot read properties of undefined'')
      | JNull \<Rightarrow> Inl (TypeError ''Cannot read properties of null'')
      | _ \<Rightarrow> Inl (TypeError ''execStatus.toUpperCase is not a function''))"

definition nullish :: "jsval \<Rightarrow> bool" where
  "nullish v = (v = JUndefined \<or> v = JNull)"

text \<open>
  The value of property \<open>k\<close> of a value that is neither \<^verbatim>\<open>null\<close> nor \<^verbatim>\<open>undefined\<close>. The
  keys the program reads are no built-in property of a string, an array, a number or a
  boolean, so on those the read gives \<^verbatim>\<open>undefined\<close>.
\<close>

fun read_prop :: "jsval \<Rightarrow> string \<Rightarrow> jsval" where
  "read_prop (JObj kvs) k = (case map_of kvs k of None \<Rightarrow> JUndefined | Some v \<Rightarrow> v)"
| "read_prop v k = JUndefined"

text \<open>\<^verbatim>\<open>v.k\<close> throws on \<^verbatim>\<open>null\<close> and \<^verbatim>\<open>undefined\<close>; \<^verbatim>\<open>v?.k\<close> gives \<^verbatim>\<open>undefined\<close> there.\<close>

definition get_prop :: "jsval \<Rightarrow> string \<Rightarrow> exn + jsval" where
  "get_prop v k =
     (if v = JNull then Inl (TypeError ''Cannot read properties of null'')
      else if v = JUndefined then Inl (TypeError ''Cannot read properties of undefined'')
      else Inr (read_prop v k))"

definition opt_prop :: "jsval \<Rightarrow> string \<Rightarrow> jsval" where
  "opt_prop v k = (if nullish v then JUndefined else read_prop v k)"

text \<open>\<^verbatim>\<open>a || b\<close> where an operand may throw: \<open>b\<close> is only evaluated when \<open>a\<close> is falsy.\<close>

definition or_else :: "exn + jsval \<Rightarrow> exn + jsval \<Rightarrow> exn + jsval" where
  "or_else a b = (case a of Inl e \<Rightarrow> Inl e | Inr v \<Rightarrow> if truthy v then Inr v else b)"

section \<open>Configuration and the network\<close>

text \<open>The constants read from the environment when the process starts.\<close>

record config =
  OWNER :: string
  LZ_API_BASE :: string
  LZ_TX_BASE :: string

text \<open>
  A request is its URL and its headers. The reply to \<^verbatim>\<open>fetch\<close> is a rejected promise
  (timeout, DNS, connection) or a response: its status, what \<^verbatim>\<open>r.text()\<close> resolves to and
  what \<^verbatim>\<open>r.json()\<close> resolves to, \<open>None\<close> where that promise rejects (the body cannot be read,
  or is no JSON text). The network answers a request knowing the requests made before it;
  every function that fetches takes this trace and returns it extended.
\<close>

datatype request = Request string "(string \<times> string) list"

datatype reply = Rejected | Response nat "string option" "jsval option"

type_synonym net = "request list \<Rightarrow> request \<Rightarrow> reply"

text \<open>\<^verbatim>\<open>r.ok\<close>: the status is in the range 200 to 299.\<close>

definition ok :: "nat \<Rightarrow> bool" where
  "ok st = (200 \<le> st \<and> st \<le> 299)"

section \<open>\<^verbatim>\<open>fetchMessagesByOwner\<close> and \<^verbatim>\<open>fetchTxHtml\<close>\<close>

text \<open>
  The request for a page of messages, given the texts that the template literal prints
  for \<^verbatim>\<open>page\<close> and \<^verbatim>\<open>limit\<close>.
\<close>

definition messages_url :: "config \<Rightarrow> string \<Rightarrow> string \<Rightarrow> string \<Rightarrow> string" where
  "messages_url cfg owner p l =
     LZ_API_BASE cfg @ ''/messages?address='' @ owner @ ''&page='' @ p @ ''&limit='' @ l"

definition messages_request :: "config \<Rightarrow> string \<Rightarrow> string \<Rightarrow> string \<Rightarrow> request" where
  "messages_request cfg owner p l = Request (messages_url cfg owner p l) []"

text \<open>
  The body of the \<^verbatim>\<open>try\<close> block: \<open>Inl\<close> is what it throws. \<^verbatim>\<open>page\<close> and \<^verbatim>\<open>limit\<close> are
  values of the language; the handler passes the numbers 1 and 50.
\<close>

definition fetchMessagesByOwner_try ::
  "config \<Rightarrow> net \<Rightarrow> request list \<Rightarrow> string \<Rightarrow> jsval \<Rightarrow> jsval \<Rightarrow>
     (exn + jsval) \<times> request list" where
  "fetchMessagesByOwner_try cfg net tr owner page limit =
     (case js_ToString page of
        Inl e \<Rightarrow> (Inl e, tr)
      | Inr p \<Rightarrow>
          (case js_ToString limit of
             Inl e \<Rightarrow> (Inl e, tr)
           | Inr l \<Rightarrow>
               (let req = messages_request cfg owner p l;
                    tr' = tr @ [req]
                in case net tr req of
                     Rejected \<Rightarrow> (Inl (Error ''request failed''), tr')
                   | Response st txt js \<Rightarrow>
                       if \<not> ok st then (Inl (Error (''LZ API '' @ show_nat st)), tr')
                       else (case js of
                               None \<Rightarrow> (Inl (Error ''invalid json response body''), tr')
                             | Some j \<Rightarrow>
                                 (case get_prop j ''messages'' of
                                    Inl e \<Rightarrow> (Inl e, tr')
                                  | Inr v \<Rightarrow> (Inr (js_or v (JArr [])), tr'))))))"

text \<open>The \<^verbatim>\<open>catch\<close> block warns on the console and returns the empty array.\<close>

definition fetchMessagesByOwner ::
  "config \<Rightarrow> net \<Rightarrow> request list \<Rightarrow> string \<Rightarrow> jsval \<Rightarrow> jsval \<Rightarrow>
     (exn + jsval) \<times> request list" where
  "fetchMessagesByOwner cfg net tr owner page limit =
     (case fetchMessagesByOwner_try cfg net tr owner page limit of
        (Inl e, tr') \<Rightarrow> (Inr (JArr []), tr')
      | (Inr v, tr') \<Rightarrow> (Inr v, tr'))"

definition tx_request :: "config \<Rightarrow> string \<Rightarrow> request" where
  "tx_request cfg h =
     Request (LZ_TX_BASE cfg @ ''/'' @ h) [(''User-Agent'', ''auto-scan-worker/1.0'')]"

definition fetchTxHtml_try ::
  "config \<Rightarrow> net \<Rightarrow> request list \<Rightarrow> jsval \<Rightarrow> (exn + jsval) \<times> request list" where
  "fetchTxHtml_try cfg net tr txHash =
     (case js_ToString txHash of
        Inl e \<Rightarrow> (Inl e, tr)
      | Inr h \<Rightarrow>
          (let req = tx_request cfg h;
               tr' = tr @ [req]
           in case net tr req of
                Rejected \<Rightarrow> (Inl (Error ''request failed''), tr')
              | Response st txt js \<Rightarrow>
                  if \<not> ok st then (Inr JNull, tr')
                  else (case txt of
                          None \<Rightarrow> (Inl (Error ''body unreadable''), tr')
                        | Some t \<Rightarrow> (Inr (JStr t), tr'))))"

definition fetchTxHtml ::
  "config \<Rightarrow> net \<Rightarrow> request list \<Rightarrow> jsval \<Rightarrow> (exn + jsval) \<times> request list" where
  "fetchTxHtml cfg net tr txHash =
     (case fetchTxHtml_try cfg net tr txHash of
        (Inl e, tr') \<Rightarrow> (Inr JNull, tr')
      | (Inr v, tr') \<Rightarrow> (Inr v, tr'))"

section \<open>The handler of \<^verbatim>\<open>GET /pending\<close>\<close>

record summary =
  srcTxHash :: jsval
  dstEid :: jsval
  sender32 :: jsval
  payload :: jsval
  statusSummary :: jsval
  lzTxPage :: string

text \<open>Line 76: \<^verbatim>\<open>(m?.executorResult?.status) || (m?.executorStatus) || null\<close>.\<close>

definition resolve_execStatus :: "jsval \<Rightarrow> jsval" where
  "resolve_execStatus m =
     js_or (js_or (opt_prop (opt_prop m ''executorResult'') ''status'')
                  (opt_prop m ''executorStatus''))
           JNull"

text \<open>Line 79: \<^verbatim>\<open>m.srcTxHash || m.txHash || m?.tx?.txHash\<close>.\<close>

definition resolve_txHash :: "jsval \<Rightarrow> exn + jsval" where
  "resolve_txHash m =
     or_else (or_else (get_prop m ''srcTxHash'') (get_prop m ''txHash''))
             (Inr (opt_prop (opt_prop m ''tx'') ''txHash''))"

text \<open>Lines 83 and 84: the structured fields.\<close>

definition resolve_sender32 :: "jsval \<Rightarrow> exn + jsval" where
  "resolve_sender32 m =
     or_else (or_else (get_prop m ''sender32'') (get_prop m ''sender'')) (Inr JNull)"

definition resolve_payload :: "jsval \<Rightarrow> exn + jsval" where
  "resolve_payload m =
     or_else (or_else (or_else (get_prop m ''payload'') (get_prop m ''payloadHex''))
                      (get_prop m ''data''))
             (Inr JNull)"

text \<open>Line 98: \<^verbatim>\<open>m.dstEid || m.dst_eid || m.dst || null\<close>.\<close>

definition resolve_dstEid :: "jsval \<Rightarrow> exn + jsval" where
  "resolve_dstEid m =
     or_else (or_else (or_else (get_prop m ''dstEid'') (get_prop m ''dst_eid''))
                      (get_prop m ''dst''))
             (Inr JNull)"

text \<open>
  Lines 87 to 94: when a field is missing, fetch the transaction page and let the
  heuristic fill what is missing. The result is the pair of \<^verbatim>\<open>sender32\<close> and
  \<^verbatim>\<open>payload\<close> after the block.
\<close>

definition fill_missing ::
  "config \<Rightarrow> net \<Rightarrow> request list \<Rightarrow> jsval \<Rightarrow> jsval \<Rightarrow> jsval \<Rightarrow>
     (exn + jsval \<times> jsval) \<times> request list" where
  "fill_missing cfg net tr txHash sender payl =
     (if \<not> truthy sender \<or> \<not> truthy payl then
        (case fetchTxHtml cfg net tr txHash of
           (Inl e, tr') \<Rightarrow> (Inl e, tr')
         | (Inr html, tr') \<Rightarrow>
             if truthy html then
               (case html of
                  JStr text \<Rightarrow>
                    (let g = guessHexesFromText text;
                         sender = (if \<not> truthy sender \<and> truthy (g_sender32 g)
                                   then g_sender32 g else sender);
                         payl = (if \<not> truthy payl \<and> truthy (g_payload g)
                                 then g_payload g else payl)
                     in (Inr (sender, payl), tr'))
                | _ \<Rightarrow> (Inl (TypeError ''text.match is not a function''), tr'))
             else (Inr (sender, payl), tr'))
      else (Inr (sender, payl), tr))"

text \<open>
  The body of the loop for one message \<open>m\<close>: \<open>Inr None\<close> is \<^verbatim>\<open>continue\<close>,
  \<open>Inr (Some s)\<close> is \<^verbatim>\<open>out.push(s)\<close>, \<open>Inl e\<close> is an exception that leaves the loop.
\<close>

definition process_message ::
  "config \<Rightarrow> net \<Rightarrow> request list \<Rightarrow> jsval \<Rightarrow> (exn + summary option) \<times> request list" where
  "process_message cfg net tr m =
     (let execStatus = resolve_execStatus m in
      if \<not> truthy execStatus then (Inr None, tr)
      else case call_toUpperCase execStatus of
        Inl e \<Rightarrow> (Inl e, tr)
      | Inr up \<Rightarrow>
          if up \<noteq> ''WAITING'' then (Inr None, tr)
          else case resolve_txHash m of
            Inl e \<Rightarrow> (Inl e, tr)
          | Inr txHash \<Rightarrow>
              if \<not> truthy txHash then (Inr None, tr)
              else case resolve_sender32 m of
                Inl e \<Rightarrow> (Inl e, tr)
              | Inr sender \<Rightarrow>
                  (case resolve_payload m of
                     Inl e \<Rightarrow> (Inl e, tr)
                   | Inr payl \<Rightarrow>
                       (case fill_missing cfg net tr txHash sender payl of
                          (Inl e, tr') \<Rightarrow> (Inl e, tr')
                        | (Inr (sender, payl), tr') \<Rightarrow>
                            (case resolve_dstEid m of
                               Inl e \<Rightarrow> (Inl e, tr')
                             | Inr dst \<Rightarrow>
                                 (case js_ToString txHash of
                                    Inl e \<Rightarrow> (Inl e, tr')
                                  | Inr h \<Rightarrow>
                                      (Inr (Some \<lparr>srcTxHash = txHash, dstEid = dst,
                                                  sender32 = sender, payload = payl,
                                                  statusSummary = execStatus,
                                                  lzTxPage = LZ_TX_BASE cfg @ ''/'' @ h\<rparr>),
                                       tr'))))))"

text \<open>\<^verbatim>\<open>for(const m of msgs)\<close>, with \<open>out\<close> the array built so far.\<close>

fun pending_loop ::
  "config \<Rightarrow> net \<Rightarrow> request list \<Rightarrow> summary list \<Rightarrow> jsval list \<Rightarrow>
     (exn + summary list) \<times> request list" where
  "pending_loop cfg net tr out [] = (Inr out, tr)"
| "pending_loop cfg net tr out (m # ms) =
     (case process_message cfg net tr m of
        (Inl e, tr') \<Rightarrow> (Inl e, tr')
      | (Inr None, tr') \<Rightarrow> pending_loop cfg net tr' out ms
      | (Inr (Some s), tr') \<Rightarrow> pending_loop cfg net tr' (out @ [s]) ms)"

text \<open>
  What \<^verbatim>\<open>for ... of\<close> iterates over: the elements of an array, the characters (code
  points) of a string; any other value is not iterable. In UTF-8 a character is a byte
  and the continuation bytes (80 to BF) that follow it.
\<close>

definition is_cont :: "char \<Rightarrow> bool" where
  "is_cont c = (128 \<le> (of_char c :: nat) \<and> (of_char c :: nat) < 192)"

function code_points :: "string \<Rightarrow> string list" where
  "code_points [] = []"
| "code_points (c # cs) = (c # takeWhile is_cont cs) # code_points (dropWhile is_cont cs)"
  by pat_completeness auto
termination
proof (relation "measure length")
  show "wf (measure length)" by simp
next
  fix c :: char and cs :: string
  have "length (dropWhile is_cont cs) \<le> length cs" by (rule length_dropWhile_le)
  then show "(dropWhile is_cont cs, c # cs) \<in> measure length" by simp
qed

definition iterate :: "jsval \<Rightarrow> exn + jsval list" where
  "iterate v =
     (case v of
        JArr xs \<Rightarrow> Inr xs
      | JStr s \<Rightarrow> Inr (map JStr (code_points s))
      | _ \<Rightarrow> Inl (TypeError ''msgs is not iterable''))"

text \<open>The two JSON bodies the handler sends, and the response with its status.\<close>

datatype response_body =
    PendingOk string nat "summary list"
  | PendingError string

record response =
  status :: nat
  body :: response_body

text \<open>The \<^verbatim>\<open>try\<close> block of the handler, up to the value given to \<^verbatim>\<open>res.json\<close>.\<close>

definition pending_try ::
  "config \<Rightarrow> net \<Rightarrow> request list \<Rightarrow> (exn + response_body) \<times> request list" where
  "pending_try cfg net tr =
     (let owner = OWNER cfg in
      case fetchMessagesByOwner cfg net tr owner (JNum ''1'') (JNum ''50'') of
        (Inl e, tr1) \<Rightarrow> (Inl e, tr1)
      | (Inr msgs, tr1) \<Rightarrow>
          (case iterate msgs of
             Inl e \<Rightarrow> (Inl e, tr1)
           | Inr ms \<Rightarrow>
               (case pending_loop cfg net tr1 [] ms of
                  (Inl e, tr2) \<Rightarrow> (Inl e, tr2)
                | (Inr out, tr2) \<Rightarrow> (Inr (PendingOk owner (length out) out), tr2))))"

text \<open>
  \<^verbatim>\<open>res.json(...)\<close> answers with status 200; the \<^verbatim>\<open>catch\<close> block answers with
  status 500 and the exception's message.
\<close>

definition pending_handler :: "config \<Rightarrow> net \<Rightarrow> request list \<Rightarrow> response \<times> request list" where
  "pending_handler cfg net tr =
     (case pending_try cfg net tr of
        (Inr b, tr') \<Rightarrow> (\<lparr>status = 200, body = b\<rparr>, tr')
      | (Inl e, tr') \<Rightarrow> (\<lparr>status = 500, body = PendingError (message e)\<rparr>, tr'))"

section \<open>The specification's notions\<close>

text \<open>
  The definitions of this section follow the words of the specification, not the code;
  the theorems below compare the two.
\<close>

text \<open>Deduplicate exact matches, preserving first-seen order.\<close>

fun spec_dedup :: "'a list \<Rightarrow> 'a list" where
  "spec_dedup [] = []"
| "spec_dedup (x # xs) = x # spec_dedup (removeAll x xs)"

text \<open>The first candidate that satisfies a rule; \<^verbatim>\<open>null\<close> when no candidate does.\<close>

definition spec_first :: "(string \<Rightarrow> bool) \<Rightarrow> string list \<Rightarrow> jsval" where
  "spec_first P hs = (case find P hs of None \<Rightarrow> JNull | Some h \<Rightarrow> JStr h)"

text \<open>\<^verbatim>\<open>0x\<close> followed by 64 or more hexadecimal characters.\<close>

definition spec_candidate :: "string \<Rightarrow> bool" where
  "spec_candidate h = (take 2 h = ''0x'' \<and> 64 \<le> length (drop 2 h) \<and> list_all is_hex (drop 2 h))"

text \<open>A 32-byte hex string with \<^verbatim>\<open>0x\<close> prefix: total length 66, hex digits only.\<close>

definition spec_hex32 :: "string \<Rightarrow> bool" where
  "spec_hex32 h = (length h = 66 \<and> take 2 h = ''0x'' \<and> list_all is_hex (drop 2 h))"

text \<open>An even-length hex string with \<^verbatim>\<open>0x\<close> prefix.\<close>

definition spec_hex_even :: "string \<Rightarrow> bool" where
  "spec_hex_even h = (even (length h) \<and> take 2 h = ''0x'' \<and> list_all is_hex (drop 2 h))"

text \<open>
  A probing chain: the accessors are tried in priority order and the first value that
  is truthy is the field's value.
\<close>

definition first_truthy :: "jsval list \<Rightarrow> jsval option" where
  "first_truthy vs = find truthy vs"

text \<open>
  The resolved executor status: the nested \<^verbatim>\<open>executorResult.status\<close> probed before the
  flat \<^verbatim>\<open>executorStatus\<close>.
\<close>

definition spec_status :: "jsval \<Rightarrow> jsval option" where
  "spec_status m =
     first_truthy [read_prop (read_prop m ''executorResult'') ''status'',
                   read_prop m ''executorStatus'']"

text \<open>The transaction hash: \<^verbatim>\<open>srcTxHash\<close>, then \<^verbatim>\<open>txHash\<close>, then \<^verbatim>\<open>tx.txHash\<close>.\<close>

definition spec_txHash :: "jsval \<Rightarrow> jsval option" where
  "spec_txHash m =
     first_truthy [read_prop m ''srcTxHash'', read_prop m ''txHash'',
                   read_prop (read_prop m ''tx'') ''txHash'']"

text \<open>
  The structured sender and payload fields and the destination endpoint: the first truthy
  value of the chain, else \<^verbatim>\<open>null\<close>.
\<close>

definition or_null :: "jsval option \<Rightarrow> jsval" where
  "or_null r = (case r of None \<Rightarrow> JNull | Some v \<Rightarrow> v)"

definition spec_sender :: "jsval \<Rightarrow> jsval" where
  "spec_sender m = or_null (first_truthy [read_prop m ''sender32'', read_prop m ''sender''])"

definition spec_payload :: "jsval \<Rightarrow> jsval" where
  "spec_payload m =
     or_null (first_truthy [read_prop m ''payload'', read_prop m ''payloadHex'',
                            read_prop m ''data''])"

definition spec_dstEid :: "jsval \<Rightarrow> jsval" where
  "spec_dstEid m =
     or_null (first_truthy [read_prop m ''dstEid'', read_prop m ''dst_eid'', read_prop m ''dst''])"

text \<open>
  The statuses that count as \<^verbatim>\<open>WAITING\<close>: the word in any mix of small and capital
  letters. The language's upper-casing turns the dotless i (U+0131, in UTF-8 the bytes
  C4 B1) into I as well, so it may stand in the place of either i. A string has a
  spelling when it is a concatenation of one alternative for each position.
\<close>

definition dotless_i :: string where
  "dotless_i = [CHR 0xC4, CHR 0xB1]"

definition waiting_spellings :: "string list list" where
  "waiting_spellings =
     [[''w'', ''W''], [''a'', ''A''], [''i'', ''I'', dotless_i], [''t'', ''T''],
      [''i'', ''I'', dotless_i], [''n'', ''N''], [''g'', ''G'']]"

fun spelled :: "string list list \<Rightarrow> string \<Rightarrow> bool" where
  "spelled [] s = (s = [])"
| "spelled (alts # rest) s =
     list_ex (\<lambda>a. take (length a) s = a \<and> spelled rest (drop (length a) s)) alts"

definition spec_is_waiting :: "jsval \<Rightarrow> bool" where
  "spec_is_waiting v = (case v of JStr s \<Rightarrow> spelled waiting_spellings s | _ \<Rightarrow> False)"

text \<open>
  Case-insensitive comparison of ASCII text: two strings are equal once each capital
  letter is replaced by its small letter.
\<close>

definition is_ascii :: "char \<Rightarrow> bool" where
  "is_ascii c = ((of_char c :: nat) < 128)"

definition lower_char :: "char \<Rightarrow> char" where
  "lower_char c =
     (case map_of (zip ''ABCDEFGHIJKLMNOPQRSTUVWXYZ'' ''abcdefghijklmnopqrstuvwxyz'') c of
        None \<Rightarrow> c
      | Some l \<Rightarrow> l)"

definition eq_ignore_case :: "string \<Rightarrow> string \<Rightarrow> bool" where
  "eq_ignore_case a b = (map lower_char a = map lower_char b)"

text \<open>
  A qualifying message: its resolved status is \<^verbatim>\<open>WAITING\<close> and a transaction hash
  resolves.
\<close>

definition spec_qualifies :: "jsval \<Rightarrow> bool" where
  "spec_qualifies m =
     ((case spec_status m of None \<Rightarrow> False | Some v \<Rightarrow> spec_is_waiting v) \<and>
      spec_txHash m \<noteq> None)"

text \<open>
  A record of the expected shape: its resolved status, when there is one, is a string,
  and when that status is \<^verbatim>\<open>WAITING\<close> and a transaction hash resolves, the hash can be
  written into a URL. Nothing is asked of the hash of a record whose status is not
  \<^verbatim>\<open>WAITING\<close>.
\<close>

definition regular :: "jsval \<Rightarrow> bool" where
  "regular m =
     (case spec_status m of
        None \<Rightarrow> True
      | Some v \<Rightarrow>
          (case v of
             JStr s \<Rightarrow>
               (if spec_is_waiting v
                then (case spec_txHash m of
                        None \<Rightarrow> True
                      | Some h \<Rightarrow> (case js_ToString h of Inl e \<Rightarrow> False | Inr u \<Rightarrow> True))
                else True)
           | _ \<Rightarrow> False))"

text \<open>What a summary takes from its message, whatever the network answers.\<close>

definition summary_of :: "config \<Rightarrow> jsval \<Rightarrow> summary \<Rightarrow> bool" where
  "summary_of cfg m s =
     (spec_txHash m = Some (srcTxHash s) \<and>
      spec_status m = Some (statusSummary s) \<and>
      dstEid s = spec_dstEid m \<and>
      (case js_ToString (srcTxHash s) of
         Inl e \<Rightarrow> False
       | Inr u \<Rightarrow> lzTxPage s = LZ_TX_BASE cfg @ ''/'' @ u))"

text \<open>
  The trace after a call of \<^verbatim>\<open>fetchTxHtml\<close>: one request more, unless the hash has no
  string form.
\<close>

definition after_fetch :: "config \<Rightarrow> request list \<Rightarrow> jsval \<Rightarrow> request list" where
  "after_fetch cfg tr h = (case js_ToString h of Inl e \<Rightarrow> tr | Inr u \<Rightarrow> tr @ [tx_request cfg u])"

section \<open>Example data\<close>

text \<open>
  A transaction page with four tokens: one of odd length 67, one of length 66, one of
  length 68, and the one of length 66 again; \<^verbatim>\<open>0x12\<close> is too short to match.
\<close>

definition ex_sender :: string where
  "ex_sender = ''0xa4cE12B3bC1A612dd272Bd1C37EEC1CCc171B49d4B3C9BF53CCE6b3B2C1D6fFB''"

definition ex_payload :: string where
  "ex_payload = ''0xdaeCeb97572C9Afae9D23Ad5a4fd1F2BCaabDfCe228fF219ECFe9cFb0eb5D3f169''"

definition ex_odd :: string where
  "ex_odd = ''0x47ccf25ecB84dB8dbFc742547F70fC58904dBbDCa4ADEF1eFBcccc3fEc1626e53''"

definition ex_page :: string where
  "ex_page = ''<td>'' @ ex_odd @ ''</td><a>'' @ ex_sender @ ''</a> 0x12 <b>'' @ ex_payload @
     ''</b> '' @ ex_sender @ ''!''"

text \<open>A configuration, and four records as the message API may list them.\<close>

definition ex_cfg :: config where
  "ex_cfg = \<lparr>OWNER = ''0xabc'', LZ_API_BASE = ''https://api.example'',
     LZ_TX_BASE = ''https://scan.example/tx''\<rparr>"

text \<open>Waiting in lower case, with structured sender and payload that are no hex strings.\<close>

definition ex_msg_structured :: jsval where
  "ex_msg_structured =
     JObj [(''executorResult'', JObj [(''status'', JStr ''waiting'')]),
           (''srcTxHash'', JStr ''0x11''),
           (''sender32'', JStr ''alice''),
           (''payload'', JStr ''hello''),
           (''dst'', JNum ''30101'')]"

text \<open>Already executed.\<close>

definition ex_msg_done :: jsval where
  "ex_msg_done = JObj [(''executorStatus'', JStr ''SUCCESS''), (''srcTxHash'', JStr ''0x22'')]"

text \<open>
  Empty strings and a zero in the first fields of each chain: the status comes from
  \<^verbatim>\<open>executorStatus\<close>, the hash from \<^verbatim>\<open>tx.txHash\<close>, sender and payload are missing.
\<close>

definition ex_msg_sparse :: jsval where
  "ex_msg_sparse =
     JObj [(''executorResult'', JObj [(''status'', JStr [])]),
           (''executorStatus'', JStr ''WAITING''),
           (''srcTxHash'', JStr []),
           (''tx'', JObj [(''txHash'', JStr ''0x33'')]),
           (''sender'', JStr []),
           (''payload'', JNum ''0''),
           (''dst_eid'', JNum ''40161'')]"

text \<open>Waiting, but no hash field holds a truthy value.\<close>

definition ex_msg_no_hash :: jsval where
  "ex_msg_no_hash =
     JObj [(''executorStatus'', JStr ''WAITING''), (''srcTxHash'', JStr []), (''txHash'', JNum ''0'')]"

text \<open>
  Waiting, spelled with the dotless i (U+0131, the bytes C4 B1) in place of both letters i.
\<close>

definition ex_msg_dotless :: jsval where
  "ex_msg_dotless =
     JObj [(''executorStatus'',
              JStr (''wa'' @ [CHR 0xC4, CHR 0xB1] @ ''t'' @ [CHR 0xC4, CHR 0xB1] @ ''ng'')),
           (''srcTxHash'', JStr ''0x55''),
           (''sender32'', JStr ''alice''),
           (''payload'', JStr ''hello'')]"

text \<open>A status that is a number.\<close>

definition ex_msg_numeric :: jsval where
  "ex_msg_numeric = JObj [(''executorStatus'', JNum ''1''), (''srcTxHash'', JStr ''0x44'')]"

text \<open>
  Waiting, with a hash that is an object with an own property \<^verbatim>\<open>toString\<close>: the template
  literal of line 102 cannot convert it to a string.
\<close>

definition ex_msg_object_hash :: jsval where
  "ex_msg_object_hash =
     JObj [(''executorStatus'', JStr ''WAITING''),
           (''srcTxHash'', JObj [(''toString'', JNum ''1'')]),
           (''sender32'', JStr ''alice''),
           (''payload'', JStr ''hello'')]"

text \<open>Already executed, with a hash that has no string form.\<close>

definition ex_msg_done_object_hash :: jsval where
  "ex_msg_done_object_hash =
     JObj [(''executorStatus'', JStr ''SUCCESS''),
           (''srcTxHash'', JObj [(''toString'', JNum ''1'')])]"

definition ex_messages :: "jsval list" where
  "ex_messages = [ex_msg_structured, ex_msg_done, JNull, ex_msg_sparse]"

text \<open>
  Three networks: one that lists \<open>ex_messages\<close> and serves \<open>ex_page\<close> for the hash
  \<^verbatim>\<open>0x33\<close>, one that lists the record with the numeric status, and one that is down.
\<close>

definition ex_net :: net where
  "ex_net tr req =
     (if req = messages_request ex_cfg ''0xabc'' ''1'' ''50''
      then Response 200 None (Some (JObj [(''messages'', JArr ex_messages)]))
      else if req = tx_request ex_cfg ''0x33'' then Response 200 (Some ex_page) None
      else Response 404 None None)"

definition ex_net_numeric :: net where
  "ex_net_numeric tr req =
     Response 200 None (Some (JObj [(''messages'', JArr [ex_msg_numeric])]))"


definition ex_net_down :: net where
  "ex_net_down tr req = Rejected"

section \<open>The hex heuristic\<close>

subsection \<open>The \<^verbatim>\<open>Set\<close> keeps first occurrences\<close>

lemma set_add_fold:
  "foldl set_add acc xs = acc @ spec_dedup (filter (\<lambda>x. x \<notin> set acc) xs)"
proof (induction xs arbitrary: acc)
  case Nil
  then show ?case by simp
next
  case (Cons x xs)
  show ?case
  proof (cases "x \<in> set acc")
    case True
    then show ?thesis using Cons.IH [of acc] by (simp add: set_add_def)
  next
    case False
    have "removeAll x (filter (\<lambda>y. y \<notin> set acc) xs) = filter (\<lambda>y. y \<notin> set (acc @ [x])) xs"
      by (induction xs) auto
    then show ?thesis using False Cons.IH [of "acc @ [x]"] by (simp add: set_add_def)
  qed
qed

lemma new_Set_dedup: "new_Set xs = spec_dedup xs"
  by (simp add: new_Set_def set_add_fold)

lemma set_spec_dedup: "set (spec_dedup xs) = set xs"
  by (induction xs rule: spec_dedup.induct) auto

subsection \<open>The head of a filter is the first element found\<close>

lemma hd_filter_find: "filter P xs \<noteq> [] \<Longrightarrow> find P xs = Some (hd (filter P xs))"
  by (induction xs) auto

lemma find_filter_Nil: "filter P xs = [] \<Longrightarrow> find P xs = None"
  by (induction xs) (auto split: if_splits)

lemma first_filter:
  "(if filter P xs \<noteq> [] then JStr (hd (filter P xs)) else JNull) = spec_first P xs"
  by (simp add: spec_first_def hd_filter_find find_filter_Nil)

lemma spec_first_cases:
  "spec_first P xs = JNull \<or> (\<exists>h. spec_first P xs = JStr h \<and> h \<in> set xs \<and> P h)"
  by (auto simp: spec_first_def find_Some_iff split: option.splits)

subsection \<open>The fields of the guess\<close>

lemma hexes_of_match: "(case js_match t of None \<Rightarrow> [] | Some ms \<Rightarrow> ms) = match_hexes t"
  by (simp add: js_match_def split: list.splits)

lemma guess_sender32:
  "g_sender32 (guessHexesFromText t) =
     spec_first (\<lambda>h. length h = 66) (spec_dedup (match_hexes t))"
  unfolding guessHexesFromText_def Let_def hexes_of_match new_Set_dedup
  by (simp add: first_filter [symmetric])

lemma guess_payload:
  "g_payload (guessHexesFromText t) =
     spec_first (\<lambda>h. 66 < length h \<and> even (length h)) (spec_dedup (match_hexes t))"
  unfolding guessHexesFromText_def Let_def hexes_of_match new_Set_dedup
  by (simp add: first_filter [symmetric] even_iff_mod_2_eq_zero)

subsection \<open>What the scan finds\<close>

lemma match_hexes_candidate: "h \<in> set (match_hexes t) \<Longrightarrow> spec_candidate h"
proof (induction t rule: match_hexes.induct)
  case 1
  then show ?case by simp
next
  case (2 c)
  then show ?case by simp
next
  case (3 c d cs)
  show ?case
  proof (cases "c = CHR ''0'' \<and> d = CHR ''x'' \<and> 64 \<le> length (takeWhile is_hex cs)")
    case True
    with 3 show ?thesis
      by (auto simp: spec_candidate_def list_all_iff dest: set_takeWhileD)
  next
    case False
    with 3 show ?thesis by auto
  qed
qed




subsection \<open>The example page\<close>

lemma ex_match: "match_hexes ex_page = [ex_odd, ex_sender, ex_payload, ex_sender]"
  by code_simp

lemma ex_len: "length ex_odd = 67" "length ex_sender = 66" "length ex_payload = 68"
  by (simp_all add: ex_odd_def ex_sender_def ex_payload_def)

lemma ex_distinct:
  "ex_sender \<noteq> ex_odd" "ex_payload \<noteq> ex_odd" "ex_payload \<noteq> ex_sender"
  "ex_odd \<noteq> ex_sender" "ex_odd \<noteq> ex_payload" "ex_sender \<noteq> ex_payload"
  using ex_len by auto

lemma ex_guess:
  "guessHexesFromText ex_page = \<lparr>g_sender32 = JStr ex_sender, g_payload = JStr ex_payload\<rparr>"
  by (simp add: guessHexesFromText_def js_match_def ex_match new_Set_def set_add_def ex_len
      ex_distinct)

section \<open>Claims about the hex heuristic\<close>



text \<open>
  C3. When \<^verbatim>\<open>guessHexesFromText\<close> returns a \<^verbatim>\<open>sender32\<close> and a \<^verbatim>\<open>payload\<close> that are both
  not \<^verbatim>\<open>null\<close>, the two are never the same string: \<^verbatim>\<open>sender32\<close> has length exactly 66 and
  \<^verbatim>\<open>payload\<close> has a length greater than 66.
\<close>

theorem guess_never_identical:
  assumes "g_sender32 (guessHexesFromText t) \<noteq> JNull"
    and "g_payload (guessHexesFromText t) \<noteq> JNull"
  shows "g_sender32 (guessHexesFromText t) \<noteq> g_payload (guessHexesFromText t) \<and>
         (\<exists>s p. g_sender32 (guessHexesFromText t) = JStr s \<and>
                 g_payload (guessHexesFromText t) = JStr p \<and>
                 length s = 66 \<and> 66 < length p)"
proof -
  let ?hs = "spec_dedup (match_hexes t)"
  from assms(1) obtain s where s: "g_sender32 (guessHexesFromText t) = JStr s" "length s = 66"
    using spec_first_cases [of "\<lambda>h. length h = 66" ?hs] by (auto simp: guess_sender32)
  from assms(2) obtain p where p: "g_payload (guessHexesFromText t) = JStr p" "66 < length p"
    using spec_first_cases [of "\<lambda>h. 66 < length h \<and> even (length h)" ?hs]
    by (auto simp: guess_payload)
  from s(2) p(2) have "s \<noteq> p" by auto
  with s p show ?thesis by simp
qed

theorem guess_never_identical_witness:
  "g_sender32 (guessHexesFromText ex_page) \<noteq> JNull \<and>
   g_payload (guessHexesFromText ex_page) \<noteq> JNull \<and>
   g_sender32 (guessHexesFromText ex_page) \<noteq> g_payload (guessHexesFromText ex_page)"
proof -
  have a: "g_sender32 (guessHexesFromText ex_page) \<noteq> JNull" by (simp add: ex_guess)
  have b: "g_payload (guessHexesFromText ex_page) \<noteq> JNull" by (simp add: ex_guess)
  from guess_never_identical [OF a b] a b show ?thesis by blast
qed

section \<open>The handler, record by record\<close>

subsection \<open>Comparing with \<^verbatim>\<open>"WAITING"\<close>\<close>

lemma upper_W: "(upper_char c = CHR ''W'') = (lower_char c = CHR ''w'')"
  by (simp add: upper_char_def lower_char_def)

lemma upper_A: "(upper_char c = CHR ''A'') = (lower_char c = CHR ''a'')"
  by (simp add: upper_char_def lower_char_def)

lemma upper_I: "(upper_char c = CHR ''I'') = (lower_char c = CHR ''i'')"
  by (simp add: upper_char_def lower_char_def)

lemma upper_T: "(upper_char c = CHR ''T'') = (lower_char c = CHR ''t'')"
  by (simp add: upper_char_def lower_char_def)

lemma upper_N: "(upper_char c = CHR ''N'') = (lower_char c = CHR ''n'')"
  by (simp add: upper_char_def lower_char_def)

lemma upper_G: "(upper_char c = CHR ''G'') = (lower_char c = CHR ''g'')"
  by (simp add: upper_char_def lower_char_def)

lemma toUpperCase_ascii: "list_all is_ascii s \<Longrightarrow> toUpperCase s = map upper_char s"
  by (induction s rule: toUpperCase.induct) (auto simp: is_ascii_def)

lemma waiting_ignore_case:
  assumes "list_all is_ascii s"
  shows "(toUpperCase s = ''WAITING'') = eq_ignore_case s ''WAITING''"
proof -
  have "map lower_char ''WAITING'' = ''waiting''" by (simp add: lower_char_def)
  then show ?thesis
    by (auto simp: toUpperCase_ascii [OF assms] eq_ignore_case_def map_eq_Cons_conv
        upper_W upper_A upper_I upper_T upper_N upper_G)
qed

text \<open>The strings that upper-case to \<^verbatim>\<open>WAITING\<close> are its spellings.\<close>

lemma toUpperCase_Nil: "(toUpperCase s = []) = (s = [])"
  by (induction s rule: toUpperCase.induct) auto

lemma upper_W': "(upper_char c = CHR ''W'') = (c = CHR ''w'' \<or> c = CHR ''W'')"
  by (auto simp: upper_char_def split: if_splits)
lemma upper_A': "(upper_char c = CHR ''A'') = (c = CHR ''a'' \<or> c = CHR ''A'')"
  by (auto simp: upper_char_def split: if_splits)
lemma upper_I': "(upper_char c = CHR ''I'') = (c = CHR ''i'' \<or> c = CHR ''I'')"
  by (auto simp: upper_char_def split: if_splits)
lemma upper_T': "(upper_char c = CHR ''T'') = (c = CHR ''t'' \<or> c = CHR ''T'')"
  by (auto simp: upper_char_def split: if_splits)
lemma upper_N': "(upper_char c = CHR ''N'') = (c = CHR ''n'' \<or> c = CHR ''N'')"
  by (auto simp: upper_char_def split: if_splits)
lemma upper_G': "(upper_char c = CHR ''G'') = (c = CHR ''g'' \<or> c = CHR ''G'')"
  by (auto simp: upper_char_def split: if_splits)

lemma step_W:
  "(toUpperCase s = CHR ''W'' # us) =
     (\<exists>cs. (s = CHR ''w'' # cs \<or> s = CHR ''W'' # cs) \<and>
           toUpperCase cs = us)"
  by (cases s rule: toUpperCase.cases) (auto simp: upper_W')

lemma step_I:
  "(toUpperCase s = CHR ''I'' # us) =
     (\<exists>cs. (s = CHR ''i'' # cs \<or> s = CHR ''I'' # cs \<or> s = CHR 0xC4 # CHR 0xB1 # cs) \<and>
           toUpperCase cs = us)"
  by (cases s rule: toUpperCase.cases) (auto simp: upper_I')

lemma step_A:
  "(toUpperCase s = CHR ''A'' # us) =
     (\<exists>cs. (s = CHR ''a'' # cs \<or> s = CHR ''A'' # cs) \<and>
           toUpperCase cs = us)"
  by (cases s rule: toUpperCase.cases) (auto simp: upper_A')

lemma step_T:
  "(toUpperCase s = CHR ''T'' # us) =
     (\<exists>cs. (s = CHR ''t'' # cs \<or> s = CHR ''T'' # cs) \<and>
           toUpperCase cs = us)"
  by (cases s rule: toUpperCase.cases) (auto simp: upper_T')

lemma step_N:
  "(toUpperCase s = CHR ''N'' # us) =
     (\<exists>cs. (s = CHR ''n'' # cs \<or> s = CHR ''N'' # cs) \<and>
           toUpperCase cs = us)"
  by (cases s rule: toUpperCase.cases) (auto simp: upper_N')

lemma step_G:
  "(toUpperCase s = CHR ''G'' # us) =
     (\<exists>cs. (s = CHR ''g'' # cs \<or> s = CHR ''G'' # cs) \<and>
           toUpperCase cs = us)"
  by (cases s rule: toUpperCase.cases) (auto simp: upper_G')

lemma spelled_step:
  "spelled (alts # rest) s = (\<exists>a cs. a \<in> set alts \<and> s = a @ cs \<and> spelled rest cs)"
proof
  assume "spelled (alts # rest) s"
  then obtain a where a: "a \<in> set alts" "take (length a) s = a" "spelled rest (drop (length a) s)"
    by (auto simp: list_ex_iff)
  from a(2) have "s = a @ drop (length a) s" by (metis append_take_drop_id)
  with a show "\<exists>a cs. a \<in> set alts \<and> s = a @ cs \<and> spelled rest cs" by blast
next
  assume "\<exists>a cs. a \<in> set alts \<and> s = a @ cs \<and> spelled rest cs"
  then obtain a cs where a: "a \<in> set alts" "s = a @ cs" "spelled rest cs" by blast
  then have "take (length a) s = a \<and> spelled rest (drop (length a) s)" by simp
  with a(1) show "spelled (alts # rest) s" unfolding spelled.simps list_ex_iff by blast
qed

lemma w7: "(toUpperCase s = []) = spelled [] s"
  by (simp add: toUpperCase_Nil)

lemma w6: "(toUpperCase s = ''G'') = spelled [[''g'', ''G'']] s"
  by (simp only: step_G w7 spelled_step) (auto simp del: spelled.simps)

lemma w5: "(toUpperCase s = ''NG'') = spelled [[''n'', ''N''], [''g'', ''G'']] s"
  by (simp only: step_N w6 spelled_step [of _ "[[''g'', ''G'']]"])
    (auto simp del: spelled.simps)

lemma w4: "(toUpperCase s = ''ING'') = spelled [[''i'', ''I'', dotless_i], [''n'', ''N''], [''g'', ''G'']] s"
  by (simp only: step_I w5 spelled_step [of _ "[[''n'', ''N''], [''g'', ''G'']]"])
    (auto simp: dotless_i_def simp del: spelled.simps)

lemma w3: "(toUpperCase s = ''TING'') =
    spelled [[''t'', ''T''], [''i'', ''I'', dotless_i], [''n'', ''N''], [''g'', ''G'']] s"
  by (simp only: step_T w4
      spelled_step [of _ "[[''i'', ''I'', dotless_i], [''n'', ''N''], [''g'', ''G'']]"])
    (auto simp del: spelled.simps)

lemma w2: "(toUpperCase s = ''ITING'') =
    spelled [[''i'', ''I'', dotless_i], [''t'', ''T''], [''i'', ''I'', dotless_i], [''n'', ''N''],
             [''g'', ''G'']] s"
  by (simp only: step_I w3
      spelled_step [of _ "[[''t'', ''T''], [''i'', ''I'', dotless_i], [''n'', ''N''],
                           [''g'', ''G'']]"])
    (auto simp: dotless_i_def simp del: spelled.simps)

lemma w1: "(toUpperCase s = ''AITING'') =
    spelled [[''a'', ''A''], [''i'', ''I'', dotless_i], [''t'', ''T''], [''i'', ''I'', dotless_i],
             [''n'', ''N''], [''g'', ''G'']] s"
  by (simp only: step_A w2
      spelled_step [of _ "[[''i'', ''I'', dotless_i], [''t'', ''T''], [''i'', ''I'', dotless_i],
                           [''n'', ''N''], [''g'', ''G'']]"])
    (auto simp del: spelled.simps)

lemma waiting_spelled: "(toUpperCase s = ''WAITING'') = spelled waiting_spellings s"
  unfolding waiting_spellings_def
  by (simp only: step_W w1
      spelled_step [of _ "[[''a'', ''A''], [''i'', ''I'', dotless_i], [''t'', ''T''],
                           [''i'', ''I'', dotless_i], [''n'', ''N''], [''g'', ''G'']]"])
    (auto simp del: spelled.simps)

lemma spec_is_waiting_JStr: "spec_is_waiting (JStr u) = (toUpperCase u = ''WAITING'')"
  by (simp add: spec_is_waiting_def waiting_spelled)

subsection \<open>The probing chains\<close>

lemma opt_prop_read: "opt_prop v k = read_prop v k"
  by (cases v) (simp_all add: opt_prop_def nullish_def)

lemma get_prop_Inr: "\<not> nullish m \<Longrightarrow> get_prop m k = Inr (read_prop m k)"
  by (simp add: get_prop_def nullish_def)

lemma read_prop_nullish: "nullish m \<Longrightarrow> read_prop m k = JUndefined"
  by (auto simp: nullish_def)

lemma first_truthy_Some: "first_truthy vs = Some v \<Longrightarrow> truthy v"
  by (auto simp: first_truthy_def find_Some_iff)

lemma falsy_or_null: "\<not> truthy (or_null (first_truthy vs)) \<Longrightarrow> or_null (first_truthy vs) = JNull"
  by (cases "first_truthy vs") (auto simp: or_null_def dest: first_truthy_Some)

lemma resolve_execStatus_spec: "resolve_execStatus m = or_null (spec_status m)"
  by (simp add: resolve_execStatus_def spec_status_def first_truthy_def js_or_def opt_prop_read
      or_null_def)

lemma spec_status_nullish: "nullish m \<Longrightarrow> spec_status m = None"
  by (simp add: spec_status_def first_truthy_def read_prop_nullish)

lemma spec_status_Some: "spec_status m = Some v \<Longrightarrow> truthy v \<and> \<not> nullish m"
  using spec_status_nullish [of m] by (auto simp: spec_status_def dest: first_truthy_Some)

lemma resolve_txHash_spec:
  "\<not> nullish m \<Longrightarrow>
   resolve_txHash m =
     Inr (case spec_txHash m of None \<Rightarrow> read_prop (read_prop m ''tx'') ''txHash'' | Some v \<Rightarrow> v)"
  by (simp add: resolve_txHash_def spec_txHash_def first_truthy_def or_else_def opt_prop_read
      get_prop_Inr)

lemma spec_txHash_None: "spec_txHash m = None \<Longrightarrow> \<not> truthy (read_prop (read_prop m ''tx'') ''txHash'')"
  by (auto simp: spec_txHash_def first_truthy_def split: if_splits)

lemma resolve_sender32_spec: "\<not> nullish m \<Longrightarrow> resolve_sender32 m = Inr (spec_sender m)"
  by (simp add: resolve_sender32_def spec_sender_def first_truthy_def or_else_def get_prop_Inr
      or_null_def)

lemma resolve_payload_spec: "\<not> nullish m \<Longrightarrow> resolve_payload m = Inr (spec_payload m)"
  by (simp add: resolve_payload_def spec_payload_def first_truthy_def or_else_def get_prop_Inr
      or_null_def)

lemma resolve_dstEid_spec: "\<not> nullish m \<Longrightarrow> resolve_dstEid m = Inr (spec_dstEid m)"
  by (simp add: resolve_dstEid_def spec_dstEid_def first_truthy_def or_else_def get_prop_Inr
      or_null_def)

subsection \<open>The branches of the loop body\<close>

lemma process_message_no_status:
  "spec_status m = None \<Longrightarrow> process_message cfg net tr m = (Inr None, tr)"
  by (simp add: process_message_def resolve_execStatus_spec or_null_def)

lemma process_message_not_string:
  assumes "spec_status m = Some v" and "\<And>u. v \<noteq> JStr u"
  shows "process_message cfg net tr m =
           (Inl (TypeError ''execStatus.toUpperCase is not a function''), tr)"
proof -
  from assms(1) have t: "truthy v" by (simp add: spec_status_Some)
  with assms(2) have "call_toUpperCase v = Inl (TypeError ''execStatus.toUpperCase is not a function'')"
    by (cases v) (auto simp: call_toUpperCase_def)
  with t assms(1) show ?thesis
    by (simp add: process_message_def resolve_execStatus_spec or_null_def)
qed

lemma process_message_other_status:
  assumes "spec_status m = Some (JStr u)" and "toUpperCase u \<noteq> ''WAITING''"
  shows "process_message cfg net tr m = (Inr None, tr)"
proof -
  from assms(1) have "u \<noteq> []" by (auto dest: spec_status_Some)
  with assms show ?thesis
    by (simp add: process_message_def resolve_execStatus_spec or_null_def call_toUpperCase_def)
qed

lemma process_message_no_hash:
  assumes "spec_status m = Some (JStr u)" and "toUpperCase u = ''WAITING''"
    and "spec_txHash m = None"
  shows "process_message cfg net tr m = (Inr None, tr)"
proof -
  from assms(1) have t: "u \<noteq> []" and n: "\<not> nullish m" by (auto dest: spec_status_Some)
  from assms(3) have "\<not> truthy (read_prop (read_prop m ''tx'') ''txHash'')" by (rule spec_txHash_None)
  with assms t n show ?thesis
    by (simp add: process_message_def resolve_execStatus_spec or_null_def call_toUpperCase_def
        resolve_txHash_spec)
qed

lemma process_message_waiting:
  assumes "spec_status m = Some (JStr u)" and "toUpperCase u = ''WAITING''"
    and "spec_txHash m = Some h"
  shows "process_message cfg net tr m =
     (case fill_missing cfg net tr h (spec_sender m) (spec_payload m) of
        (Inl e, tr') \<Rightarrow> (Inl e, tr')
      | (Inr (sender, payl), tr') \<Rightarrow>
          (case js_ToString h of
             Inl e \<Rightarrow> (Inl e, tr')
           | Inr p \<Rightarrow>
               (Inr (Some \<lparr>srcTxHash = h, dstEid = spec_dstEid m, sender32 = sender,
                           payload = payl, statusSummary = JStr u,
                           lzTxPage = LZ_TX_BASE cfg @ ''/'' @ p\<rparr>), tr')))"
proof -
  from assms(1) have t: "u \<noteq> []" and n: "\<not> nullish m" by (auto dest: spec_status_Some)
  from assms(3) have th: "truthy h" by (simp add: spec_txHash_def first_truthy_Some)
  from assms t n th show ?thesis
    by (simp add: process_message_def resolve_execStatus_spec or_null_def call_toUpperCase_def
        resolve_txHash_spec resolve_sender32_spec resolve_payload_spec resolve_dstEid_spec
        split: prod.splits sum.splits)
qed

subsection \<open>Filling in what is missing\<close>

lemma candidate_hex32: "spec_candidate h \<Longrightarrow> length h = 66 \<Longrightarrow> spec_hex32 h"
  by (simp add: spec_candidate_def spec_hex32_def)

lemma candidate_hex_even: "spec_candidate h \<Longrightarrow> even (length h) \<Longrightarrow> spec_hex_even h"
  by (simp add: spec_candidate_def spec_hex_even_def)

lemma guess_sender32_shape:
  "g_sender32 (guessHexesFromText t) = JNull \<or>
   (\<exists>h. g_sender32 (guessHexesFromText t) = JStr h \<and> spec_hex32 h)"
  using spec_first_cases [of "\<lambda>h. length h = 66" "spec_dedup (match_hexes t)"]
  by (auto simp: guess_sender32 set_spec_dedup intro: candidate_hex32 match_hexes_candidate)

lemma guess_payload_shape:
  "g_payload (guessHexesFromText t) = JNull \<or>
   (\<exists>h. g_payload (guessHexesFromText t) = JStr h \<and> spec_hex_even h \<and> 66 < length h)"
  using spec_first_cases [of "\<lambda>h. 66 < length h \<and> even (length h)" "spec_dedup (match_hexes t)"]
  by (auto simp: guess_payload set_spec_dedup intro: candidate_hex_even match_hexes_candidate)

lemma fetchTxHtml_cases:
  "fetchTxHtml cfg net tr h = (Inr JNull, after_fetch cfg tr h) \<or>
   (\<exists>t. fetchTxHtml cfg net tr h = (Inr (JStr t), after_fetch cfg tr h))"
  by (simp add: fetchTxHtml_def fetchTxHtml_try_def after_fetch_def Let_def
      split: sum.splits reply.splits option.splits)

lemma fill_missing_resolved:
  "truthy s0 \<Longrightarrow> truthy p0 \<Longrightarrow> fill_missing cfg net tr h s0 p0 = (Inr (s0, p0), tr)"
  by (simp add: fill_missing_def)

lemma fill_missing_unresolved:
  assumes "\<not> truthy s0 \<or> \<not> truthy p0"
  shows "\<exists>sd pl. fill_missing cfg net tr h s0 p0 = (Inr (sd, pl), after_fetch cfg tr h) \<and>
           (truthy s0 \<longrightarrow> sd = s0) \<and> (truthy p0 \<longrightarrow> pl = p0) \<and>
           (\<not> truthy s0 \<longrightarrow> sd = s0 \<or> (\<exists>x. sd = JStr x \<and> spec_hex32 x)) \<and>
           (\<not> truthy p0 \<longrightarrow> pl = p0 \<or> (\<exists>x. pl = JStr x \<and> spec_hex_even x \<and> 66 < length x))"
proof -
  from fetchTxHtml_cases [of cfg net tr h] show ?thesis
  proof
    assume "fetchTxHtml cfg net tr h = (Inr JNull, after_fetch cfg tr h)"
    with assms show ?thesis by (auto simp: fill_missing_def)
  next
    assume "\<exists>t. fetchTxHtml cfg net tr h = (Inr (JStr t), after_fetch cfg tr h)"
    then obtain t where t: "fetchTxHtml cfg net tr h = (Inr (JStr t), after_fetch cfg tr h)" ..
    show ?thesis
      using assms t guess_sender32_shape [of t] guess_payload_shape [of t]
      by (auto simp: fill_missing_def Let_def)
  qed
qed

lemma fill_missing_total:
  "\<exists>sd pl tr'. fill_missing cfg net tr h s0 p0 = (Inr (sd, pl), tr')"
proof (cases "truthy s0 \<and> truthy p0")
  case True
  then show ?thesis by (simp add: fill_missing_resolved)
next
  case False
  then have "\<not> truthy s0 \<or> \<not> truthy p0" by simp
  from fill_missing_unresolved [OF this] show ?thesis by blast
qed

subsection \<open>What the loop body returns\<close>

lemma process_message_emitted:
  assumes "process_message cfg net tr m = (Inr (Some s), tr')"
  shows "\<exists>u h p sd pl.
           spec_status m = Some (JStr u) \<and> toUpperCase u = ''WAITING'' \<and>
           spec_txHash m = Some h \<and> js_ToString h = Inr p \<and>
           fill_missing cfg net tr h (spec_sender m) (spec_payload m) = (Inr (sd, pl), tr') \<and>
           s = \<lparr>srcTxHash = h, dstEid = spec_dstEid m, sender32 = sd, payload = pl,
                 statusSummary = JStr u, lzTxPage = LZ_TX_BASE cfg @ ''/'' @ p\<rparr>"
proof (cases "spec_status m")
  case None
  with assms show ?thesis by (simp add: process_message_no_status)
next
  case (Some v)
  show ?thesis
  proof (cases "\<exists>u. v = JStr u")
    case False
    then have "\<And>u. v \<noteq> JStr u" by blast
    from process_message_not_string [OF Some this] assms show ?thesis by simp
  next
    case True
    then obtain u where v: "v = JStr u" ..
    show ?thesis
    proof (cases "toUpperCase u = ''WAITING''")
      case False
      with Some v assms show ?thesis by (simp add: process_message_other_status)
    next
      case True
      note up = this
      show ?thesis
      proof (cases "spec_txHash m")
        case None
        with Some v up assms show ?thesis by (simp add: process_message_no_hash)
      next
        case (Some h)
        from process_message_waiting [OF \<open>spec_status m = Some v\<close> [unfolded v] up Some] assms
        show ?thesis using \<open>spec_status m = Some v\<close> v up Some
          by (auto split: prod.splits sum.splits)
      qed
    qed
  qed
qed

lemma process_message_skipped:
  assumes "process_message cfg net tr m = (Inr None, tr')"
  shows "\<not> spec_qualifies m \<and> tr' = tr"
proof (cases "spec_status m")
  case None
  with assms show ?thesis by (simp add: process_message_no_status spec_qualifies_def)
next
  case (Some v)
  show ?thesis
  proof (cases "\<exists>u. v = JStr u")
    case False
    then have "\<And>u. v \<noteq> JStr u" by blast
    from process_message_not_string [OF Some this] assms show ?thesis by simp
  next
    case True
    then obtain u where v: "v = JStr u" ..
    show ?thesis
    proof (cases "toUpperCase u = ''WAITING''")
      case False
      with Some v assms show ?thesis
        by (simp add: process_message_other_status spec_qualifies_def spec_is_waiting_JStr)
    next
      case True
      note up = this
      show ?thesis
      proof (cases "spec_txHash m")
        case None
        with Some v up assms show ?thesis by (simp add: process_message_no_hash spec_qualifies_def)
      next
        case (Some h)
        from process_message_waiting [OF \<open>spec_status m = Some v\<close> [unfolded v] up Some] assms
        show ?thesis by (auto split: prod.splits sum.splits)
      qed
    qed
  qed
qed

lemma emitted_qualifies:
  "process_message cfg net tr m = (Inr (Some s), tr') \<Longrightarrow> spec_qualifies m"
  by (drule process_message_emitted) (auto simp: spec_qualifies_def spec_is_waiting_JStr)

lemma emitted_summary_of:
  "process_message cfg net tr m = (Inr (Some s), tr') \<Longrightarrow> summary_of cfg m s"
  by (drule process_message_emitted) (auto simp: summary_of_def)

lemma process_message_regular:
  assumes "regular m"
  shows "\<exists>r tr'. process_message cfg net tr m = (Inr r, tr') \<and> (r \<noteq> None) = spec_qualifies m"
proof (cases "spec_status m")
  case None
  then show ?thesis by (simp add: process_message_no_status spec_qualifies_def)
next
  case (Some v)
  with assms obtain u where v: "v = JStr u" by (auto simp: regular_def split: jsval.splits)
  from assms Some v have hash:
    "spec_is_waiting (JStr u) \<Longrightarrow>
       (case spec_txHash m of
          None \<Rightarrow> True
        | Some h \<Rightarrow> (case js_ToString h of Inl e \<Rightarrow> False | Inr p \<Rightarrow> True))"
    by (simp add: regular_def)
  show ?thesis
  proof (cases "toUpperCase u = ''WAITING''")
    case False
    with Some v show ?thesis
      by (simp add: process_message_other_status spec_qualifies_def spec_is_waiting_JStr)
  next
    case True
    note up = this
    show ?thesis
    proof (cases "spec_txHash m")
      case None
      with Some v up show ?thesis by (simp add: process_message_no_hash spec_qualifies_def)
    next
      case (Some h)
      with hash up obtain p where p: "js_ToString h = Inr p"
        by (auto simp: spec_is_waiting_JStr split: sum.splits)
      obtain sd pl tr' where
        f: "fill_missing cfg net tr h (spec_sender m) (spec_payload m) = (Inr (sd, pl), tr')"
        using fill_missing_total by blast
      from process_message_waiting [OF \<open>spec_status m = Some v\<close> [unfolded v] up Some] f p
      show ?thesis using \<open>spec_status m = Some v\<close> v up Some
        by (simp add: spec_qualifies_def spec_is_waiting_JStr)
    qed
  qed
qed

text \<open>The records that are not regular are exactly those on which the loop body throws.\<close>

lemma irregular_throws:
  assumes "\<not> regular m"
  shows "\<exists>e tr'. process_message cfg net tr m = (Inl e, tr')"
proof (cases "spec_status m")
  case None
  with assms show ?thesis by (simp add: regular_def)
next
  case (Some v)
  show ?thesis
  proof (cases "\<exists>u. v = JStr u")
    case False
    then have "\<And>u. v \<noteq> JStr u" by blast
    from process_message_not_string [OF Some this] show ?thesis by blast
  next
    case True
    then obtain u where v: "v = JStr u" ..
    from assms Some v have up: "toUpperCase u = ''WAITING''"
      by (auto simp: regular_def spec_is_waiting_JStr split: if_splits)
    from assms Some v up obtain h e where h: "spec_txHash m = Some h" and e: "js_ToString h = Inl e"
      by (auto simp: regular_def spec_is_waiting_JStr split: option.splits sum.splits)
    obtain sd pl tr' where
      f: "fill_missing cfg net tr h (spec_sender m) (spec_payload m) = (Inr (sd, pl), tr')"
      using fill_missing_total by blast
    from process_message_waiting [OF Some [unfolded v] up h] f e
    have "process_message cfg net tr m = (Inl e, tr')" by simp
    then show ?thesis by blast
  qed
qed

subsection \<open>The loop\<close>

lemma pending_loop_filter_map:
  "pending_loop cfg net tr out ms = (Inr out', tr') \<Longrightarrow>
     \<exists>new. out' = out @ new \<and> list_all2 (summary_of cfg) (filter spec_qualifies ms) new"
proof (induction ms arbitrary: tr out)
  case Nil
  then show ?case by simp
next
  case (Cons m ms)
  obtain r tr1 where pm: "process_message cfg net tr m = (r, tr1)" by (cases "process_message cfg net tr m")
  show ?case
  proof (cases r)
    case (Inl e)
    with pm Cons.prems show ?thesis by simp
  next
    case (Inr res)
    show ?thesis
    proof (cases res)
      case None
      with pm Inr have skip: "\<not> spec_qualifies m" by (simp add: process_message_skipped)
      from pm Inr None Cons.prems have "pending_loop cfg net tr1 out ms = (Inr out', tr')" by simp
      from Cons.IH [OF this] skip show ?thesis by simp
    next
      case (Some s)
      with pm Inr have q: "spec_qualifies m" and so: "summary_of cfg m s"
        by (simp_all add: emitted_qualifies emitted_summary_of)
      from pm Inr Some Cons.prems have "pending_loop cfg net tr1 (out @ [s]) ms = (Inr out', tr')"
        by simp
      from Cons.IH [OF this] obtain new where
        "out' = (out @ [s]) @ new" "list_all2 (summary_of cfg) (filter spec_qualifies ms) new"
        by blast
      with q so have "out' = out @ (s # new) \<and>
          list_all2 (summary_of cfg) (filter spec_qualifies (m # ms)) (s # new)" by simp
      then show ?thesis by blast
    qed
  qed
qed

lemma pending_loop_regular:
  "list_all regular ms \<Longrightarrow> \<exists>out' tr'. pending_loop cfg net tr out ms = (Inr out', tr')"
proof (induction ms arbitrary: tr out)
  case Nil
  then show ?case by simp
next
  case (Cons m ms)
  then have "regular m" and rest: "list_all regular ms" by simp_all
  from process_message_regular [OF this(1)] obtain r tr1 where
    pm: "process_message cfg net tr m = (Inr r, tr1)" by blast
  show ?case
  proof (cases r)
    case None
    with pm Cons.IH [OF rest, of tr1 out] show ?thesis by simp
  next
    case (Some s)
    with pm Cons.IH [OF rest, of tr1 "out @ [s]"] show ?thesis by simp
  qed
qed

subsection \<open>The message fetcher and the handler\<close>


lemma fetchMessagesByOwner_request:
  "js_ToString page = Inr p \<Longrightarrow> js_ToString limit = Inr l \<Longrightarrow>
   \<exists>v. fetchMessagesByOwner cfg net tr owner page limit =
         (Inr v, tr @ [messages_request cfg owner p l])"
  by (simp add: fetchMessagesByOwner_def fetchMessagesByOwner_try_def Let_def
      split: reply.splits option.splits sum.splits prod.splits)

lemma fetchMessagesByOwner_rejected:
  "js_ToString page = Inr p \<Longrightarrow> js_ToString limit = Inr l \<Longrightarrow>
   net tr (messages_request cfg owner p l) = Rejected \<Longrightarrow>
   fetchMessagesByOwner cfg net tr owner page limit =
     (Inr (JArr []), tr @ [messages_request cfg owner p l])"
  by (simp add: fetchMessagesByOwner_def fetchMessagesByOwner_try_def Let_def)

lemma fetchMessagesByOwner_not_ok:
  "js_ToString page = Inr p \<Longrightarrow> js_ToString limit = Inr l \<Longrightarrow>
   net tr (messages_request cfg owner p l) = Response st t j \<Longrightarrow> \<not> ok st \<Longrightarrow>
   fetchMessagesByOwner cfg net tr owner page limit =
     (Inr (JArr []), tr @ [messages_request cfg owner p l])"
  by (simp add: fetchMessagesByOwner_def fetchMessagesByOwner_try_def Let_def)

lemma fetchMessagesByOwner_no_json:
  "js_ToString page = Inr p \<Longrightarrow> js_ToString limit = Inr l \<Longrightarrow>
   net tr (messages_request cfg owner p l) = Response st t None \<Longrightarrow>
   fetchMessagesByOwner cfg net tr owner page limit =
     (Inr (JArr []), tr @ [messages_request cfg owner p l])"
  by (simp add: fetchMessagesByOwner_def fetchMessagesByOwner_try_def Let_def)


lemma fetchMessagesByOwner_unprintable:
  "js_ToString page = Inl e \<or> js_ToString limit = Inl e \<Longrightarrow>
   fetchMessagesByOwner cfg net tr owner page limit = (Inr (JArr []), tr)"
  by (auto simp: fetchMessagesByOwner_def fetchMessagesByOwner_try_def split: sum.splits)

text \<open>The handler asks for page 1 with limit 50.\<close>

lemma pending_fetch:
  "\<exists>v. fetchMessagesByOwner cfg net tr (OWNER cfg) (JNum ''1'') (JNum ''50'') =
         (Inr v, tr @ [messages_request cfg (OWNER cfg) ''1'' ''50''])"
  by (rule fetchMessagesByOwner_request) simp_all

lemma pending_handler_run:
  assumes "fetchMessagesByOwner cfg net tr (OWNER cfg) (JNum ''1'') (JNum ''50'') = (Inr v, tr1)"
  shows "case iterate v of
           Inl e \<Rightarrow>
             pending_handler cfg net tr = (\<lparr>status = 500, body = PendingError (message e)\<rparr>, tr1)
         | Inr ms \<Rightarrow>
             (case pending_loop cfg net tr1 [] ms of
                (Inl e, tr') \<Rightarrow>
                  pending_handler cfg net tr =
                    (\<lparr>status = 500, body = PendingError (message e)\<rparr>, tr')
              | (Inr out, tr') \<Rightarrow>
                  pending_handler cfg net tr =
                    (\<lparr>status = 200, body = PendingOk (OWNER cfg) (length out) out\<rparr>, tr') \<and>
                  list_all2 (summary_of cfg) (filter spec_qualifies ms) out)"
proof (cases "iterate v")
  case (Inl e)
  with assms show ?thesis by (simp add: pending_handler_def pending_try_def)
next
  case (Inr ms)
  obtain r tr' where l: "pending_loop cfg net tr1 [] ms = (r, tr')"
    by (cases "pending_loop cfg net tr1 [] ms")
  show ?thesis
  proof (cases r)
    case (Inl e)
    with assms Inr l show ?thesis by (simp add: pending_handler_def pending_try_def)
  next
    case (Inr out)
    with l have "list_all2 (summary_of cfg) (filter spec_qualifies ms) out"
      using pending_loop_filter_map [of cfg net tr1 "[]" ms out tr'] by simp
    with assms \<open>iterate v = Inr ms\<close> l Inr show ?thesis
      by (simp add: pending_handler_def pending_try_def)
  qed
qed

lemma pending_handler_empty:
  assumes "fetchMessagesByOwner cfg net tr (OWNER cfg) (JNum ''1'') (JNum ''50'') =
             (Inr (JArr []), tr1)"
  shows "pending_handler cfg net tr = (\<lparr>status = 200, body = PendingOk (OWNER cfg) 0 []\<rparr>, tr1)"
  using assms by (simp add: pending_handler_def pending_try_def Let_def iterate_def)

subsection \<open>The example records\<close>

lemma ex_regular: "list_all regular ex_messages"
  by code_simp

lemma ex_qualifying: "filter spec_qualifies ex_messages = [ex_msg_structured, ex_msg_sparse]"
  by code_simp

lemma ex_structured_run:
  "process_message ex_cfg ex_net [] ex_msg_structured =
     (Inr (Some \<lparr>srcTxHash = JStr ''0x11'', dstEid = JNum ''30101'', sender32 = JStr ''alice'',
                 payload = JStr ''hello'', statusSummary = JStr ''waiting'',
                 lzTxPage = ''https://scan.example/tx/0x11''\<rparr>), [])"
  by code_simp

lemma ex_sparse_run:
  "process_message ex_cfg ex_net [] ex_msg_sparse =
     (Inr (Some \<lparr>srcTxHash = JStr ''0x33'', dstEid = JNum ''40161'', sender32 = JStr ex_sender,
                 payload = JStr ex_payload, statusSummary = JStr ''WAITING'',
                 lzTxPage = ''https://scan.example/tx/0x33''\<rparr>), [tx_request ex_cfg ''0x33''])"
  by code_simp

lemma ex_loop_run:
  "pending_loop ex_cfg ex_net [] [] ex_messages =
     (Inr [\<lparr>srcTxHash = JStr ''0x11'', dstEid = JNum ''30101'', sender32 = JStr ''alice'',
            payload = JStr ''hello'', statusSummary = JStr ''waiting'',
            lzTxPage = ''https://scan.example/tx/0x11''\<rparr>,
           \<lparr>srcTxHash = JStr ''0x33'', dstEid = JNum ''40161'', sender32 = JStr ex_sender,
            payload = JStr ex_payload, statusSummary = JStr ''WAITING'',
            lzTxPage = ''https://scan.example/tx/0x33''\<rparr>], [tx_request ex_cfg ''0x33''])"
  by code_simp

lemma ex_wide_regular:
  "list_all regular (ex_msg_dotless # ex_msg_done_object_hash # ex_messages)"
  by code_simp

lemma ex_wide_qualifying:
  "filter spec_qualifies (ex_msg_dotless # ex_msg_done_object_hash # ex_messages) =
     [ex_msg_dotless, ex_msg_structured, ex_msg_sparse]"
  by code_simp

lemma ex_dotless_run:
  "process_message ex_cfg ex_net [] ex_msg_dotless =
     (Inr (Some \<lparr>srcTxHash = JStr ''0x55'', dstEid = JNull, sender32 = JStr ''alice'',
                 payload = JStr ''hello'',
                 statusSummary =
                   JStr (''wa'' @ [CHR 0xC4, CHR 0xB1] @ ''t'' @ [CHR 0xC4, CHR 0xB1] @ ''ng''),
                 lzTxPage = ''https://scan.example/tx/0x55''\<rparr>), [])"
  by code_simp

lemma ex_listing_fetch:
  "fetchMessagesByOwner ex_cfg ex_net [] ''0xabc'' (JNum ''1'') (JNum ''50'') =
     (Inr (JArr ex_messages), [messages_request ex_cfg ''0xabc'' ''1'' ''50''])"
  by code_simp

lemma ex_listed_loop:
  "pending_loop ex_cfg ex_net [messages_request ex_cfg ''0xabc'' ''1'' ''50''] [] ex_messages =
     (Inr [\<lparr>srcTxHash = JStr ''0x11'', dstEid = JNum ''30101'', sender32 = JStr ''alice'',
            payload = JStr ''hello'', statusSummary = JStr ''waiting'',
            lzTxPage = ''https://scan.example/tx/0x11''\<rparr>,
           \<lparr>srcTxHash = JStr ''0x33'', dstEid = JNum ''40161'', sender32 = JStr ex_sender,
            payload = JStr ex_payload, statusSummary = JStr ''WAITING'',
            lzTxPage = ''https://scan.example/tx/0x33''\<rparr>],
      [messages_request ex_cfg ''0xabc'' ''1'' ''50'', tx_request ex_cfg ''0x33''])"
  by code_simp

lemma ex_numeric_fetch:
  "fetchMessagesByOwner ex_cfg ex_net_numeric [] ''0xabc'' (JNum ''1'') (JNum ''50'') =
     (Inr (JArr [ex_msg_numeric]), [messages_request ex_cfg ''0xabc'' ''1'' ''50''])"
  by code_simp

lemma ex_numeric_loop:
  "pending_loop ex_cfg ex_net_numeric [messages_request ex_cfg ''0xabc'' ''1'' ''50''] []
     [ex_msg_numeric] =
     (Inl (TypeError ''execStatus.toUpperCase is not a function''),
      [messages_request ex_cfg ''0xabc'' ''1'' ''50''])"
  by code_simp

lemma ex_net_down_reply: "ex_net_down tr req = Rejected"
  by (simp add: ex_net_down_def)


lemma ex_sparse_fields:
  "nullish ex_msg_sparse = False"
  "read_prop ex_msg_sparse ''srcTxHash'' = JStr []"
  "read_prop (read_prop ex_msg_sparse ''executorResult'') ''status'' = JStr []"
  "read_prop ex_msg_sparse ''sender'' = JStr []"
  "read_prop ex_msg_sparse ''payload'' = JNum ''0''"
  "spec_sender ex_msg_sparse = JNull"
  "spec_payload ex_msg_sparse = JNull"
  "spec_dstEid ex_msg_sparse = JNum ''40161''"
  "spec_status ex_msg_sparse = Some (JStr ''WAITING'')"
  "spec_txHash ex_msg_sparse = Some (JStr ''0x33'')"
  by code_simp+

lemma ex_no_hash_fields:
  "spec_txHash ex_msg_no_hash = None" "regular ex_msg_no_hash"
  by code_simp+

section \<open>Claims about the handler\<close>

text \<open>
  C1, as amended. For every sequence of raw messages in which each record's resolved
  executor status, when there is one, is a string, and in which the resolved transaction
  hash of each record whose status is \<^verbatim>\<open>WAITING\<close> has a string form: the loop ends without
  an exception, and a summary is emitted for a record if and only if its resolved status
  (\<^verbatim>\<open>executorResult.status\<close> before \<^verbatim>\<open>executorStatus\<close>) upper-cases to \<^verbatim>\<open>WAITING\<close> and a
  transaction hash resolves to a truthy value from \<^verbatim>\<open>srcTxHash\<close>, then \<^verbatim>\<open>txHash\<close>, then
  \<^verbatim>\<open>tx.txHash\<close>; every other record is dropped, and the summaries are those of the
  qualifying records. The statuses that upper-case to \<^verbatim>\<open>WAITING\<close> are its spellings in small
  and capital letters, with the dotless i allowed for i; for an ASCII status that is to
  equal \<^verbatim>\<open>WAITING\<close> case-insensitively.
\<close>

theorem regular_messages_emitted_iff_qualifying:
  assumes "list_all regular ms"
  shows "(\<exists>out tr'. pending_loop cfg net tr [] ms = (Inr out, tr') \<and>
            list_all2 (summary_of cfg) (filter spec_qualifies ms) out) \<and>
         list_all (\<lambda>m. \<forall>tr0. \<exists>r tr1. process_message cfg net tr0 m = (Inr r, tr1) \<and>
                     (r \<noteq> None) = spec_qualifies m) ms \<and>
         (\<forall>u. call_toUpperCase (JStr u) = Inr ''WAITING'' \<longleftrightarrow> spec_is_waiting (JStr u)) \<and>
         (\<forall>u. list_all is_ascii u \<longrightarrow>
            spec_is_waiting (JStr u) = eq_ignore_case u ''WAITING'')"
proof (intro conjI allI impI)
  from pending_loop_regular [OF assms] obtain out tr' where
    l: "pending_loop cfg net tr [] ms = (Inr out, tr')" by blast
  from pending_loop_filter_map [OF l] have "list_all2 (summary_of cfg) (filter spec_qualifies ms) out"
    by simp
  with l show "\<exists>out tr'. pending_loop cfg net tr [] ms = (Inr out, tr') \<and>
            list_all2 (summary_of cfg) (filter spec_qualifies ms) out" by blast
next
  show "list_all (\<lambda>m. \<forall>tr0. \<exists>r tr1. process_message cfg net tr0 m = (Inr r, tr1) \<and>
                     (r \<noteq> None) = spec_qualifies m) ms"
    unfolding list_all_iff
  proof (intro ballI allI)
    fix m tr0
    assume "m \<in> set ms"
    with assms have "regular m" by (simp add: list_all_iff)
    then show "\<exists>r tr1. process_message cfg net tr0 m = (Inr r, tr1) \<and>
                     (r \<noteq> None) = spec_qualifies m"
      by (rule process_message_regular)
  qed
next
  fix u :: string
  show "call_toUpperCase (JStr u) = Inr ''WAITING'' \<longleftrightarrow> spec_is_waiting (JStr u)"
    by (simp add: call_toUpperCase_def spec_is_waiting_JStr)
next
  fix u :: string
  assume "list_all is_ascii u"
  then show "spec_is_waiting (JStr u) = eq_ignore_case u ''WAITING''"
    by (simp add: spec_is_waiting_JStr waiting_ignore_case)
qed

theorem regular_messages_emitted_iff_qualifying_witness:
  "list_all regular (ex_msg_dotless # ex_msg_done_object_hash # ex_messages) \<and>
   (\<exists>out tr'.
       pending_loop ex_cfg ex_net [] [] (ex_msg_dotless # ex_msg_done_object_hash # ex_messages) =
         (Inr out, tr') \<and>
       list_all2 (summary_of ex_cfg) [ex_msg_dotless, ex_msg_structured, ex_msg_sparse] out) \<and>
   list_all is_ascii ''Waiting'' \<and> spec_is_waiting (JStr ''Waiting'') \<and>
   eq_ignore_case ''Waiting'' ''WAITING''"
proof -
  note t = regular_messages_emitted_iff_qualifying [OF ex_wide_regular, of ex_cfg ex_net "[]"]
  from t have "\<exists>out tr'.
       pending_loop ex_cfg ex_net [] [] (ex_msg_dotless # ex_msg_done_object_hash # ex_messages) =
         (Inr out, tr') \<and>
       list_all2 (summary_of ex_cfg)
         (filter spec_qualifies (ex_msg_dotless # ex_msg_done_object_hash # ex_messages)) out"
    by (rule conjunct1)
  then have l: "\<exists>out tr'.
       pending_loop ex_cfg ex_net [] [] (ex_msg_dotless # ex_msg_done_object_hash # ex_messages) =
         (Inr out, tr') \<and>
       list_all2 (summary_of ex_cfg) [ex_msg_dotless, ex_msg_structured, ex_msg_sparse] out"
    by (simp only: ex_wide_qualifying)
  have a: "list_all is_ascii ''Waiting''" by code_simp
  have w: "spec_is_waiting (JStr ''Waiting'')" by code_simp
  from t have "\<forall>u. list_all is_ascii u \<longrightarrow>
      spec_is_waiting (JStr u) = eq_ignore_case u ''WAITING''" by blast
  with a w have e: "eq_ignore_case ''Waiting'' ''WAITING''" by blast
  from ex_wide_regular l a w e show ?thesis by blast
qed

text \<open>
  C1 as stated fails: a record whose status is the number 1 does not qualify, and it is
  not dropped silently. \<^verbatim>\<open>execStatus.toUpperCase()\<close> throws, the loop is left and the
  request is answered with status 500. And a record that does qualify, with a hash that
  has no string form, is not emitted: building \<^verbatim>\<open>lzTxPage\<close> throws.
\<close>

theorem numeric_status_counterexample:
  "regular ex_msg_numeric = False \<and> spec_qualifies ex_msg_numeric = False \<and>
   process_message ex_cfg ex_net_numeric [] ex_msg_numeric =
     (Inl (TypeError ''execStatus.toUpperCase is not a function''), []) \<and>
   fst (pending_handler ex_cfg ex_net_numeric []) =
     \<lparr>status = 500, body = PendingError ''execStatus.toUpperCase is not a function''\<rparr> \<and>
   regular ex_msg_object_hash = False \<and> spec_qualifies ex_msg_object_hash = True \<and>
   process_message ex_cfg ex_net [] ex_msg_object_hash =
     (Inl (TypeError ''Cannot convert object to primitive value''), [])"
  by code_simp

text \<open>
  C4, as amended. For every emitted summary, \<^verbatim>\<open>statusSummary\<close> is the resolved executor
  status exactly as the record carries it: a string whose upper-case form is
  \<^verbatim>\<open>WAITING\<close>. It is compared in upper case and stored as it came.
\<close>

theorem statusSummary_is_raw_status:
  assumes "process_message cfg net tr m = (Inr (Some s), tr')"
  shows "spec_status m = Some (statusSummary s) \<and> statusSummary s = resolve_execStatus m \<and>
         (\<exists>u. statusSummary s = JStr u \<and> toUpperCase u = ''WAITING'')"
  using process_message_emitted [OF assms]
  by (auto simp: resolve_execStatus_spec or_null_def)

theorem statusSummary_is_raw_status_witness:
  "process_message ex_cfg ex_net [] ex_msg_structured =
     (Inr (Some \<lparr>srcTxHash = JStr ''0x11'', dstEid = JNum ''30101'', sender32 = JStr ''alice'',
                 payload = JStr ''hello'', statusSummary = JStr ''waiting'',
                 lzTxPage = ''https://scan.example/tx/0x11''\<rparr>), []) \<and>
   spec_status ex_msg_structured = Some (JStr ''waiting'') \<and>
   toUpperCase ''waiting'' = ''WAITING''"
  using statusSummary_is_raw_status [OF ex_structured_run] ex_structured_run by simp

text \<open>
  C4 as stated fails: for a record with \<^verbatim>\<open>executorResult.status = "waiting"\<close> and a
  resolvable hash, the emitted summary has \<^verbatim>\<open>statusSummary = "waiting"\<close>, not
  \<^verbatim>\<open>"WAITING"\<close>.
\<close>

theorem statusSummary_not_uppercased_counterexample:
  "read_prop (read_prop ex_msg_structured ''executorResult'') ''status'' = JStr ''waiting'' \<and>
   fst (process_message ex_cfg ex_net [] ex_msg_structured) =
     Inr (Some \<lparr>srcTxHash = JStr ''0x11'', dstEid = JNum ''30101'', sender32 = JStr ''alice'',
                payload = JStr ''hello'', statusSummary = JStr ''waiting'',
                lzTxPage = ''https://scan.example/tx/0x11''\<rparr>) \<and>
   JStr ''waiting'' \<noteq> JStr ''WAITING''"
  by code_simp

text \<open>
  C5, as amended. For every emitted summary, a \<^verbatim>\<open>sender32\<close> or \<^verbatim>\<open>payload\<close> that the
  structured fields resolve is that field's value, whatever it is; where the structured
  fields resolve none, \<^verbatim>\<open>sender32\<close> is \<^verbatim>\<open>null\<close> or a 32-byte hex string with \<^verbatim>\<open>0x\<close>
  prefix (length 66, hex digits only) and \<^verbatim>\<open>payload\<close> is \<^verbatim>\<open>null\<close> or an even-length hex
  string with \<^verbatim>\<open>0x\<close> prefix, longer than 66.
\<close>

theorem sender_payload_shape:
  assumes "process_message cfg net tr m = (Inr (Some s), tr')"
  shows "(truthy (spec_sender m) \<longrightarrow> sender32 s = spec_sender m) \<and>
         (\<not> truthy (spec_sender m) \<longrightarrow>
            sender32 s = JNull \<or> (\<exists>h. sender32 s = JStr h \<and> spec_hex32 h)) \<and>
         (truthy (spec_payload m) \<longrightarrow> payload s = spec_payload m) \<and>
         (\<not> truthy (spec_payload m) \<longrightarrow>
            payload s = JNull \<or> (\<exists>h. payload s = JStr h \<and> spec_hex_even h \<and> 66 < length h))"
proof -
  from process_message_emitted [OF assms] obtain h sd pl where
    f: "fill_missing cfg net tr h (spec_sender m) (spec_payload m) = (Inr (sd, pl), tr')"
    and s: "sender32 s = sd" "payload s = pl" by auto
  have n1: "\<not> truthy (spec_sender m) \<Longrightarrow> spec_sender m = JNull"
    by (simp add: spec_sender_def falsy_or_null)
  have n2: "\<not> truthy (spec_payload m) \<Longrightarrow> spec_payload m = JNull"
    by (simp add: spec_payload_def falsy_or_null)
  show ?thesis
  proof (cases "truthy (spec_sender m) \<and> truthy (spec_payload m)")
    case True
    with f s show ?thesis by (simp add: fill_missing_resolved)
  next
    case False
    then have "\<not> truthy (spec_sender m) \<or> \<not> truthy (spec_payload m)" by simp
    from fill_missing_unresolved [OF this, of cfg net tr h] f s n1 n2
    show ?thesis by auto
  qed
qed

theorem sender_payload_shape_witness:
  "process_message ex_cfg ex_net [] ex_msg_sparse =
     (Inr (Some \<lparr>srcTxHash = JStr ''0x33'', dstEid = JNum ''40161'', sender32 = JStr ex_sender,
                 payload = JStr ex_payload, statusSummary = JStr ''WAITING'',
                 lzTxPage = ''https://scan.example/tx/0x33''\<rparr>), [tx_request ex_cfg ''0x33'']) \<and>
   truthy (spec_sender ex_msg_sparse) = False \<and> truthy (spec_payload ex_msg_sparse) = False \<and>
   (\<exists>h. JStr ex_sender = JStr h \<and> spec_hex32 h) \<and>
   (\<exists>h. JStr ex_payload = JStr h \<and> spec_hex_even h \<and> 66 < length h)"
proof -
  have a: "truthy (spec_sender ex_msg_sparse) = False" by code_simp
  have b: "truthy (spec_payload ex_msg_sparse) = False" by code_simp
  from sender_payload_shape [OF ex_sparse_run] a b ex_sparse_run show ?thesis by simp
qed

text \<open>
  C5 as stated fails: structured fields are passed on without a check. A record with
  \<^verbatim>\<open>sender32 = "alice"\<close> and \<^verbatim>\<open>payload = "hello"\<close> is emitted with these two values, which
  are no hex strings.
\<close>

theorem structured_fields_not_validated_counterexample:
  "fst (process_message ex_cfg ex_net [] ex_msg_structured) =
     Inr (Some \<lparr>srcTxHash = JStr ''0x11'', dstEid = JNum ''30101'', sender32 = JStr ''alice'',
                payload = JStr ''hello'', statusSummary = JStr ''waiting'',
                lzTxPage = ''https://scan.example/tx/0x11''\<rparr>) \<and>
   spec_hex32 ''alice'' = False \<and> spec_hex_even ''hello'' = False"
  by code_simp






text \<open>
  C8. \<^verbatim>\<open>GET /pending\<close> fetches page 1 of the owner's messages with limit 50, which never
  throws. When the fetched value can be iterated and the loop over it ends normally, the
  answer is status 200 with the body \<^verbatim>\<open>{ ok: true, owner, count, results }\<close>, where
  \<^verbatim>\<open>results\<close> is what the loop emitted, the summaries of the qualifying messages in
  order, and \<^verbatim>\<open>count\<close> is its length. The answer is status 500 with the body
  \<^verbatim>\<open>{ ok: false, error }\<close> only when the iteration or the loop body throws, and \<^verbatim>\<open>error\<close> is
  then the exception's message. When the message listing fails (rejected request,
  non-success status, unreadable body) the answer is status 200 with no results and
  count 0.
\<close>

theorem pending_responses:
  "(\<exists>v. fetchMessagesByOwner cfg net tr (OWNER cfg) (JNum ''1'') (JNum ''50'') =
          (Inr v, tr @ [messages_request cfg (OWNER cfg) ''1'' ''50'']) \<and>
        (case iterate v of
           Inl e \<Rightarrow>
             pending_handler cfg net tr =
               (\<lparr>status = 500, body = PendingError (message e)\<rparr>,
                tr @ [messages_request cfg (OWNER cfg) ''1'' ''50''])
         | Inr ms \<Rightarrow>
             (case pending_loop cfg net (tr @ [messages_request cfg (OWNER cfg) ''1'' ''50''])
                     [] ms of
                (Inl e, tr') \<Rightarrow>
                  pending_handler cfg net tr =
                    (\<lparr>status = 500, body = PendingError (message e)\<rparr>, tr')
              | (Inr out, tr') \<Rightarrow>
                  pending_handler cfg net tr =
                    (\<lparr>status = 200, body = PendingOk (OWNER cfg) (length out) out\<rparr>, tr') \<and>
                  list_all2 (summary_of cfg) (filter spec_qualifies ms) out))) \<and>
   (net tr (messages_request cfg (OWNER cfg) ''1'' ''50'') = Rejected \<or>
    (\<exists>st t j. net tr (messages_request cfg (OWNER cfg) ''1'' ''50'') = Response st t j \<and>
       (ok st = False \<or> j = None))
    \<longrightarrow> pending_handler cfg net tr =
          (\<lparr>status = 200, body = PendingOk (OWNER cfg) 0 []\<rparr>,
           tr @ [messages_request cfg (OWNER cfg) ''1'' ''50'']))"
proof (intro conjI impI)
  from pending_fetch [of cfg net tr] obtain v where
    f: "fetchMessagesByOwner cfg net tr (OWNER cfg) (JNum ''1'') (JNum ''50'') =
          (Inr v, tr @ [messages_request cfg (OWNER cfg) ''1'' ''50''])" ..
  from f pending_handler_run [OF f]
  show "\<exists>v. fetchMessagesByOwner cfg net tr (OWNER cfg) (JNum ''1'') (JNum ''50'') =
          (Inr v, tr @ [messages_request cfg (OWNER cfg) ''1'' ''50'']) \<and>
        (case iterate v of
           Inl e \<Rightarrow>
             pending_handler cfg net tr =
               (\<lparr>status = 500, body = PendingError (message e)\<rparr>,
                tr @ [messages_request cfg (OWNER cfg) ''1'' ''50''])
         | Inr ms \<Rightarrow>
             (case pending_loop cfg net (tr @ [messages_request cfg (OWNER cfg) ''1'' ''50''])
                     [] ms of
                (Inl e, tr') \<Rightarrow>
                  pending_handler cfg net tr =
                    (\<lparr>status = 500, body = PendingError (message e)\<rparr>, tr')
              | (Inr out, tr') \<Rightarrow>
                  pending_handler cfg net tr =
                    (\<lparr>status = 200, body = PendingOk (OWNER cfg) (length out) out\<rparr>, tr') \<and>
                  list_all2 (summary_of cfg) (filter spec_qualifies ms) out))"
    by blast
next
  assume "net tr (messages_request cfg (OWNER cfg) ''1'' ''50'') = Rejected \<or>
    (\<exists>st t j. net tr (messages_request cfg (OWNER cfg) ''1'' ''50'') = Response st t j \<and>
       (ok st = False \<or> j = None))"
  then have "fetchMessagesByOwner cfg net tr (OWNER cfg) (JNum ''1'') (JNum ''50'') =
      (Inr (JArr []), tr @ [messages_request cfg (OWNER cfg) ''1'' ''50''])"
    by (auto simp: fetchMessagesByOwner_rejected fetchMessagesByOwner_not_ok
        fetchMessagesByOwner_no_json)
  then show "pending_handler cfg net tr =
          (\<lparr>status = 200, body = PendingOk (OWNER cfg) 0 []\<rparr>,
           tr @ [messages_request cfg (OWNER cfg) ''1'' ''50''])"
    by (rule pending_handler_empty)
qed

theorem pending_responses_witness:
  "pending_handler ex_cfg ex_net [] =
     (\<lparr>status = 200,
        body = PendingOk ''0xabc'' 2
          [\<lparr>srcTxHash = JStr ''0x11'', dstEid = JNum ''30101'', sender32 = JStr ''alice'',
             payload = JStr ''hello'', statusSummary = JStr ''waiting'',
             lzTxPage = ''https://scan.example/tx/0x11''\<rparr>,
           \<lparr>srcTxHash = JStr ''0x33'', dstEid = JNum ''40161'', sender32 = JStr ex_sender,
             payload = JStr ex_payload, statusSummary = JStr ''WAITING'',
             lzTxPage = ''https://scan.example/tx/0x33''\<rparr>]\<rparr>,
      [messages_request ex_cfg ''0xabc'' ''1'' ''50'', tx_request ex_cfg ''0x33'']) \<and>
   pending_handler ex_cfg ex_net_numeric [] =
     (\<lparr>status = 500, body = PendingError ''execStatus.toUpperCase is not a function''\<rparr>,
      [messages_request ex_cfg ''0xabc'' ''1'' ''50'']) \<and>
   ex_net_down [] (messages_request ex_cfg (OWNER ex_cfg) ''1'' ''50'') = Rejected \<and>
   pending_handler ex_cfg ex_net_down [] =
     (\<lparr>status = 200, body = PendingOk ''0xabc'' 0 []\<rparr>,
      [messages_request ex_cfg ''0xabc'' ''1'' ''50''])"
proof -
  have o: "OWNER ex_cfg = ''0xabc''" by (simp add: ex_cfg_def)
  from pending_responses [of ex_cfg ex_net "[]"] ex_listing_fetch ex_listed_loop o
  have a: "pending_handler ex_cfg ex_net [] =
     (\<lparr>status = 200,
        body = PendingOk ''0xabc'' 2
          [\<lparr>srcTxHash = JStr ''0x11'', dstEid = JNum ''30101'', sender32 = JStr ''alice'',
             payload = JStr ''hello'', statusSummary = JStr ''waiting'',
             lzTxPage = ''https://scan.example/tx/0x11''\<rparr>,
           \<lparr>srcTxHash = JStr ''0x33'', dstEid = JNum ''40161'', sender32 = JStr ex_sender,
             payload = JStr ex_payload, statusSummary = JStr ''WAITING'',
             lzTxPage = ''https://scan.example/tx/0x33''\<rparr>]\<rparr>,
      [messages_request ex_cfg ''0xabc'' ''1'' ''50'', tx_request ex_cfg ''0x33''])"
    by (auto simp: iterate_def)
  from pending_responses [of ex_cfg ex_net_numeric "[]"] ex_numeric_fetch ex_numeric_loop o
  have b: "pending_handler ex_cfg ex_net_numeric [] =
     (\<lparr>status = 500, body = PendingError ''execStatus.toUpperCase is not a function''\<rparr>,
      [messages_request ex_cfg ''0xabc'' ''1'' ''50''])"
    by (auto simp: iterate_def)
  from pending_responses [of ex_cfg ex_net_down "[]"] ex_net_down_reply o
  have c: "pending_handler ex_cfg ex_net_down [] =
     (\<lparr>status = 200, body = PendingOk ''0xabc'' 0 []\<rparr>,
      [messages_request ex_cfg ''0xabc'' ''1'' ''50''])"
    by simp
  from a b c ex_net_down_reply show ?thesis by simp
qed

text \<open>
  C9. Whenever the loop ends normally, the emitted summaries are, in the same order, the
  summaries of the qualifying messages of the input: a stable filter-map with no
  re-sorting. In particular the transaction hashes of the output are those of the
  qualifying messages, in input order.
\<close>

theorem summaries_in_input_order:
  assumes "pending_loop cfg net tr [] ms = (Inr out, tr')"
  shows "list_all2 (summary_of cfg) (filter spec_qualifies ms) out \<and>
         map Some (map srcTxHash out) = map spec_txHash (filter spec_qualifies ms)"
proof -
  from pending_loop_filter_map [OF assms]
  have l: "list_all2 (summary_of cfg) (filter spec_qualifies ms) out" by simp
  then have "list_all2 (\<lambda>m s. Some (srcTxHash s) = spec_txHash m) (filter spec_qualifies ms) out"
    by (rule list_all2_mono) (simp add: summary_of_def)
  then have "map spec_txHash (filter spec_qualifies ms) = map (\<lambda>s. Some (srcTxHash s)) out"
    by (simp add: list_all2_conv_all_nth list_eq_iff_nth_eq)
  with l show ?thesis by (simp add: comp_def)
qed

theorem summaries_in_input_order_witness:
  "pending_loop ex_cfg ex_net [] [] ex_messages =
     (Inr [\<lparr>srcTxHash = JStr ''0x11'', dstEid = JNum ''30101'', sender32 = JStr ''alice'',
            payload = JStr ''hello'', statusSummary = JStr ''waiting'',
            lzTxPage = ''https://scan.example/tx/0x11''\<rparr>,
           \<lparr>srcTxHash = JStr ''0x33'', dstEid = JNum ''40161'', sender32 = JStr ex_sender,
            payload = JStr ex_payload, statusSummary = JStr ''WAITING'',
            lzTxPage = ''https://scan.example/tx/0x33''\<rparr>], [tx_request ex_cfg ''0x33'']) \<and>
   [Some (JStr ''0x11''), Some (JStr ''0x33'')] =
     [spec_txHash ex_msg_structured, spec_txHash ex_msg_sparse]"
  using summaries_in_input_order [OF ex_loop_run] ex_loop_run
  by (simp add: ex_qualifying)

text \<open>
  C10. Every probing chain of the handler selects the first truthy value and treats a
  falsy one as absent. The status is the first truthy of \<^verbatim>\<open>executorResult.status\<close> and
  \<^verbatim>\<open>executorStatus\<close>, else \<^verbatim>\<open>null\<close>; on a record that is not \<^verbatim>\<open>null\<close> the hash is the first
  truthy of \<^verbatim>\<open>srcTxHash\<close>, \<^verbatim>\<open>txHash\<close> and \<^verbatim>\<open>tx.txHash\<close>, and sender, payload and
  \<^verbatim>\<open>dstEid\<close> are the first truthy of their variants, else \<^verbatim>\<open>null\<close>. So a falsy
  \<^verbatim>\<open>srcTxHash\<close> (the empty string) falls through to \<^verbatim>\<open>txHash\<close>, a falsy nested status falls
  through to \<^verbatim>\<open>executorStatus\<close>, a record none of whose hash fields is truthy is skipped, and
  for an emitted record a falsy sender or payload (the empty string, or 0) counts as
  unresolved and triggers the fetch of the transaction page.
\<close>

theorem probing_selects_first_truthy:
  "resolve_execStatus m = or_null (spec_status m) \<and>
   (\<not> nullish m \<longrightarrow>
      resolve_txHash m =
        Inr (case spec_txHash m of
               None \<Rightarrow> read_prop (read_prop m ''tx'') ''txHash''
             | Some v \<Rightarrow> v) \<and>
      resolve_sender32 m = Inr (spec_sender m) \<and>
      resolve_payload m = Inr (spec_payload m) \<and>
      resolve_dstEid m = Inr (spec_dstEid m)) \<and>
   (\<not> truthy (read_prop m ''srcTxHash'') \<longrightarrow>
      spec_txHash m =
        first_truthy [read_prop m ''txHash'', read_prop (read_prop m ''tx'') ''txHash'']) \<and>
   (\<not> truthy (read_prop (read_prop m ''executorResult'') ''status'') \<longrightarrow>
      spec_status m = first_truthy [read_prop m ''executorStatus'']) \<and>
   (spec_txHash m = None \<and> regular m \<longrightarrow> process_message cfg net tr m = (Inr None, tr)) \<and>
   (\<forall>s tr'. process_message cfg net tr m = (Inr (Some s), tr') \<longrightarrow>
      dstEid s = spec_dstEid m \<and> spec_txHash m = Some (srcTxHash s) \<and>
      (\<not> truthy (spec_sender m) \<or> \<not> truthy (spec_payload m) \<longrightarrow>
         tr' = after_fetch cfg tr (srcTxHash s) \<and> tr' \<noteq> tr)) \<and>
   truthy (JStr []) = False \<and> truthy (JNum ''0'') = False"
proof (intro conjI impI allI)
  show "resolve_execStatus m = or_null (spec_status m)" by (rule resolve_execStatus_spec)
next
  assume "\<not> nullish m"
  then show "resolve_txHash m =
        Inr (case spec_txHash m of
               None \<Rightarrow> read_prop (read_prop m ''tx'') ''txHash''
             | Some v \<Rightarrow> v)" by (rule resolve_txHash_spec)
next
  assume "\<not> nullish m"
  then show "resolve_sender32 m = Inr (spec_sender m)" by (rule resolve_sender32_spec)
next
  assume "\<not> nullish m"
  then show "resolve_payload m = Inr (spec_payload m)" by (rule resolve_payload_spec)
next
  assume "\<not> nullish m"
  then show "resolve_dstEid m = Inr (spec_dstEid m)" by (rule resolve_dstEid_spec)
next
  assume "\<not> truthy (read_prop m ''srcTxHash'')"
  then show "spec_txHash m =
        first_truthy [read_prop m ''txHash'', read_prop (read_prop m ''tx'') ''txHash'']"
    by (simp add: spec_txHash_def first_truthy_def)
next
  assume "\<not> truthy (read_prop (read_prop m ''executorResult'') ''status'')"
  then show "spec_status m = first_truthy [read_prop m ''executorStatus'']"
    by (simp add: spec_status_def first_truthy_def)
next
  assume a: "spec_txHash m = None \<and> regular m"
  then have nq: "\<not> spec_qualifies m" by (simp add: spec_qualifies_def)
  from a have "regular m" ..
  from process_message_regular [OF this, of cfg net tr] nq obtain tr1 where
    "process_message cfg net tr m = (Inr None, tr1)" by auto
  moreover from this have "tr1 = tr" by (simp add: process_message_skipped)
  ultimately show "process_message cfg net tr m = (Inr None, tr)" by simp
next
  fix s tr'
  assume "process_message cfg net tr m = (Inr (Some s), tr')"
  from process_message_emitted [OF this] show "dstEid s = spec_dstEid m" by auto
next
  fix s tr'
  assume "process_message cfg net tr m = (Inr (Some s), tr')"
  from process_message_emitted [OF this] show "spec_txHash m = Some (srcTxHash s)" by auto
next
  fix s tr'
  assume e: "process_message cfg net tr m = (Inr (Some s), tr')"
    and u: "\<not> truthy (spec_sender m) \<or> \<not> truthy (spec_payload m)"
  from process_message_emitted [OF e] obtain h sd pl where
    f: "fill_missing cfg net tr h (spec_sender m) (spec_payload m) = (Inr (sd, pl), tr')"
    and h: "srcTxHash s = h" by auto
  from fill_missing_unresolved [OF u, of cfg net tr h] f h
  show "tr' = after_fetch cfg tr (srcTxHash s)" by auto
next
  fix s tr'
  assume e: "process_message cfg net tr m = (Inr (Some s), tr')"
    and u: "\<not> truthy (spec_sender m) \<or> \<not> truthy (spec_payload m)"
  from process_message_emitted [OF e] obtain h p sd pl where
    f: "fill_missing cfg net tr h (spec_sender m) (spec_payload m) = (Inr (sd, pl), tr')"
    and p: "js_ToString h = Inr p" by auto
  from fill_missing_unresolved [OF u, of cfg net tr h] f p
  show "tr' \<noteq> tr" by (auto simp: after_fetch_def)
next
  show "truthy (JStr []) = False" by simp
next
  show "truthy (JNum ''0'') = False" by simp
qed

theorem probing_selects_first_truthy_witness:
  "nullish ex_msg_sparse = False \<and>
   truthy (read_prop ex_msg_sparse ''srcTxHash'') = False \<and>
   truthy (read_prop (read_prop ex_msg_sparse ''executorResult'') ''status'') = False \<and>
   resolve_execStatus ex_msg_sparse = JStr ''WAITING'' \<and>
   resolve_txHash ex_msg_sparse = Inr (JStr ''0x33'') \<and>
   resolve_sender32 ex_msg_sparse = Inr JNull \<and>
   resolve_payload ex_msg_sparse = Inr JNull \<and>
   resolve_dstEid ex_msg_sparse = Inr (JNum ''40161'') \<and>
   snd (process_message ex_cfg ex_net [] ex_msg_sparse) = after_fetch ex_cfg [] (JStr ''0x33'') \<and>
   spec_txHash ex_msg_no_hash = None \<and> regular ex_msg_no_hash \<and>
   process_message ex_cfg ex_net [] ex_msg_no_hash = (Inr None, [])"
  using probing_selects_first_truthy [of ex_msg_sparse ex_cfg ex_net "[]"]
    probing_selects_first_truthy [of ex_msg_no_hash ex_cfg ex_net "[]"]
    ex_sparse_fields ex_no_hash_fields ex_sparse_run
  by (simp add: or_null_def)

end
